theory Spec2Isabelle
  imports Complex_Main
begin

section \<open>Tensors, errors and result values\<close>

text \<open>
  The plugin works on dense PyTorch tensors. A tensor of a fixed rank is modelled by its
  shape (one natural number per dimension) together with its entries as a function of the
  indices; only the entries at indices inside the shape are meaningful. Floating-point
  entries are idealised as real numbers (no rounding, no infinities, no NaN); token ids and
  position ids are integers. Shapes, sequence lengths and cache lengths are lengths and
  therefore natural numbers.
\<close>

record 'a tensor2 =
  rows2 :: nat
  cols2 :: nat
  at2 :: "nat \<Rightarrow> nat \<Rightarrow> 'a"

record 'a tensor3 =
  batch3 :: nat
  seq3 :: nat
  feat3 :: nat
  at3 :: "nat \<Rightarrow> nat \<Rightarrow> nat \<Rightarrow> 'a"

record 'a tensor4 =
  bsz4 :: nat
  heads4 :: nat
  tgt4 :: nat
  src4 :: nat
  at4 :: "nat \<Rightarrow> nat \<Rightarrow> nat \<Rightarrow> nat \<Rightarrow> 'a"

text \<open>
  Every exception of the Python code is a value: a function that can raise returns
  \<open>Inl e\<close>, and \<open>Inr v\<close> when it returns \<open>v\<close>. \<open>RuntimeError\<close> is what PyTorch raises
  for tensors whose shapes do not fit an operation. \<open>CollaboratorError\<close> stands for any
  exception raised inside a collaborator whose code is outside the plugin (the backbone,
  the embedding table, the rotary embedding, the learned layers, the process group).
\<close>

datatype error =
  IndexError
  | ZeroDivisionError
  | RuntimeError
  | AttributeError
  | UnboundLocalError
  | CollaboratorError

definition bindE :: "error + 'a \<Rightarrow> ('a \<Rightarrow> error + 'b) \<Rightarrow> error + 'b" where
  "bindE m f = (case m of Inl e \<Rightarrow> Inl e | Inr x \<Rightarrow> f x)"

section \<open>Tree attention mask builder\<close>

text \<open>\<open>torch.full(shape, v)\<close>.\<close>

definition full4 :: "nat \<Rightarrow> nat \<Rightarrow> nat \<Rightarrow> nat \<Rightarrow> 'a \<Rightarrow> 'a tensor4" where
  "full4 b h t s v = \<lparr>bsz4 = b, heads4 = h, tgt4 = t, src4 = s, at4 = (\<lambda>_ _ _ _. v)\<rparr>"

text \<open>
  \<open>extended_mask[:, :, :, :src_len] = attention_mask\<close>: the columns below \<open>src_len\<close>
  are overwritten with the entries of the square mask.
\<close>

definition assign_low_cols :: "'a tensor4 \<Rightarrow> nat \<Rightarrow> 'a tensor4 \<Rightarrow> 'a tensor4" where
  "assign_low_cols ext n m =
     ext\<lparr>at4 := (\<lambda>b h t s. if s < n then at4 m b h t s else at4 ext b h t s)\<rparr>"

text \<open>
  \<open>extended_mask[:, :, i, col_idx] = v\<close>: one (row, column) entry in every batch and
  head. In \<open>_prepare_tree_attention_mask\<close> the row is below \<open>min(tgt_len, seq_lens)\<close> by
  the loop bound and the column is below \<open>extended_src_len\<close> by the guard in front of the
  assignment, so the index is always inside the tensor.
\<close>

definition set_entry :: "'a tensor4 \<Rightarrow> nat \<Rightarrow> nat \<Rightarrow> 'a \<Rightarrow> 'a tensor4" where
  "set_entry ext i col v =
     ext\<lparr>at4 := (\<lambda>b h t s. if t = i \<and> s = col then v else at4 ext b h t s)\<rparr>"

text \<open>The inner loop \<open>for i in range(min(tgt_len, seq_lens))\<close> of one block.\<close>

definition diagonal_block ::
  "nat \<Rightarrow> nat \<Rightarrow> nat \<Rightarrow> nat \<Rightarrow> nat \<Rightarrow> real tensor4 \<Rightarrow> real tensor4" where
  "diagonal_block src_len seq_lens tgt_len extended_src_len block_idx extended_mask =
     (let block_start = src_len + block_idx * seq_lens in
      fold (\<lambda>i ext.
              let col_idx = block_start + i in
              if col_idx < extended_src_len then set_entry ext i col_idx 0 else ext)
           [0..<min tgt_len seq_lens] extended_mask)"

text \<open>
  \<open>EagleModule._prepare_tree_attention_mask\<close>. \<open>fmin\<close> is \<open>torch.finfo(dtype).min\<close> for
  the dtype of the mask, a floating-point dtype since the entries are modelled as reals
  (\<open>torch.finfo\<close> raises for any other dtype). The floor division \<open>past_key_values_length // seq_lens\<close> raises
  \<open>ZeroDivisionError\<close> for \<open>seq_lens = 0\<close>; it is reached only after the early return for
  an empty cache.
\<close>

definition prepare_tree_attention_mask ::
  "real \<Rightarrow> real tensor4 option \<Rightarrow> nat \<Rightarrow> nat \<Rightarrow> error + real tensor4 option" where
  "prepare_tree_attention_mask fmin attention_mask seq_lens past_key_values_length =
     (case attention_mask of
        None \<Rightarrow> Inr None
      | Some m \<Rightarrow>
          if past_key_values_length = 0 then Inr (Some m)
          else
            let extended_src_len = src4 m + past_key_values_length;
                extended_mask = full4 (bsz4 m) (heads4 m) (tgt4 m) extended_src_len fmin;
                extended_mask = assign_low_cols extended_mask (src4 m) m
            in if seq_lens = 0 then Inl ZeroDivisionError
               else
                 let num_diagonal_blocks = past_key_values_length div seq_lens in
                 Inr (Some (fold (diagonal_block (src4 m) seq_lens (tgt4 m) extended_src_len)
                                 [0..<num_diagonal_blocks] extended_mask)))"


section \<open>Elementwise operations and reductions\<close>

text \<open>
  PyTorch broadcasting of two tensors of the same rank: in each dimension the sizes are
  equal, or one of them is 1 and that operand is repeated; any other pair of sizes raises.
\<close>

definition bdim :: "nat \<Rightarrow> nat \<Rightarrow> error + nat" where
  "bdim d d' = (if d = d' then Inr d else if d = 1 then Inr d' else if d' = 1 then Inr d
                else Inl RuntimeError)"

definition bidx :: "nat \<Rightarrow> nat \<Rightarrow> nat" where
  "bidx d i = (if d = 1 then 0 else i)"

definition broadcast3 ::
  "('a \<Rightarrow> 'b \<Rightarrow> 'c) \<Rightarrow> 'a tensor3 \<Rightarrow> 'b tensor3 \<Rightarrow> error + 'c tensor3" where
  "broadcast3 f x y =
     bindE (bdim (batch3 x) (batch3 y)) (\<lambda>b.
     bindE (bdim (seq3 x) (seq3 y)) (\<lambda>s.
     bindE (bdim (feat3 x) (feat3 y)) (\<lambda>v.
     Inr \<lparr>batch3 = b, seq3 = s, feat3 = v,
          at3 = (\<lambda>i j k. f (at3 x (bidx (batch3 x) i) (bidx (seq3 x) j) (bidx (feat3 x) k))
                            (at3 y (bidx (batch3 y) i) (bidx (seq3 y) j) (bidx (feat3 y) k)))\<rparr>)))"

definition broadcast4 ::
  "('a \<Rightarrow> 'b \<Rightarrow> 'c) \<Rightarrow> 'a tensor4 \<Rightarrow> 'b tensor4 \<Rightarrow> error + 'c tensor4" where
  "broadcast4 f x y =
     bindE (bdim (bsz4 x) (bsz4 y)) (\<lambda>b.
     bindE (bdim (heads4 x) (heads4 y)) (\<lambda>h.
     bindE (bdim (tgt4 x) (tgt4 y)) (\<lambda>t.
     bindE (bdim (src4 x) (src4 y)) (\<lambda>s.
     Inr \<lparr>bsz4 = b, heads4 = h, tgt4 = t, src4 = s,
          at4 = (\<lambda>i j k l.
                   f (at4 x (bidx (bsz4 x) i) (bidx (heads4 x) j) (bidx (tgt4 x) k) (bidx (src4 x) l))
                     (at4 y (bidx (bsz4 y) i) (bidx (heads4 y) j) (bidx (tgt4 y) k) (bidx (src4 y) l)))\<rparr>))))"

text \<open>\<open>x[:, :, None]\<close>: a trailing dimension of size 1.\<close>

definition unsqueeze_last :: "'a tensor2 \<Rightarrow> 'a tensor3" where
  "unsqueeze_last m = \<lparr>batch3 = rows2 m, seq3 = cols2 m, feat3 = 1, at3 = (\<lambda>b s _. at2 m b s)\<rparr>"

text \<open>
  \<open>nn.Softmax(dim=2)\<close> and \<open>nn.LogSoftmax(dim=2)\<close>, over the reals. Over the reals
  every softmax probability is positive; in floating point a probability can underflow
  to 0 (the softmax of the logits 1000 and 0 is exactly 1 and 0), where the product
  of softmax and log-softmax is still finite.
\<close>

definition softmax3 :: "real tensor3 \<Rightarrow> real tensor3" where
  "softmax3 x = x\<lparr>at3 := (\<lambda>b s v. exp (at3 x b s v) / (\<Sum>u<feat3 x. exp (at3 x b s u)))\<rparr>"

definition log_softmax3 :: "real tensor3 \<Rightarrow> real tensor3" where
  "log_softmax3 x = x\<lparr>at3 := (\<lambda>b s v. at3 x b s v - ln (\<Sum>u<feat3 x. exp (at3 x b s u)))\<rparr>"

text \<open>\<open>torch.sum(x, 2)\<close>, \<open>torch.mean(x, 2)\<close> and the sum of all entries.\<close>

definition sum_last3 :: "real tensor3 \<Rightarrow> real tensor2" where
  "sum_last3 x = \<lparr>rows2 = batch3 x, cols2 = seq3 x, at2 = (\<lambda>b s. \<Sum>v<feat3 x. at3 x b s v)\<rparr>"

text \<open>
  The mean over an empty feature axis is NaN in PyTorch; the reals have no such value (the
  division below gives 0 there), so statements about the regression loss assume a
  non-empty feature axis.
\<close>

definition mean_last3 :: "real tensor3 \<Rightarrow> real tensor2" where
  "mean_last3 x = \<lparr>rows2 = batch3 x, cols2 = seq3 x,
                   at2 = (\<lambda>b s. (\<Sum>v<feat3 x. at3 x b s v) / real (feat3 x))\<rparr>"

definition sum_all2 :: "real tensor2 \<Rightarrow> real" where
  "sum_all2 x = (\<Sum>b<rows2 x. \<Sum>s<cols2 x. at2 x b s)"

definition sum_all3 :: "real tensor3 \<Rightarrow> real" where
  "sum_all3 x = (\<Sum>b<batch3 x. \<Sum>s<seq3 x. \<Sum>v<feat3 x. at3 x b s v)"

text \<open>
  \<open>nn.SmoothL1Loss(reduction="none")\<close> with its default \<open>beta = 1.0\<close>, on the difference
  of input and target.
\<close>

definition smooth_l1 :: "real \<Rightarrow> real" where
  "smooth_l1 d = (if \<bar>d\<bar> < 1 then d\<^sup>2 / 2 else \<bar>d\<bar> - 1 / 2)"

section \<open>Auxiliary loss function\<close>

text \<open>
  \<open>HFEagleModel._eagle_loss\<close>; it returns the pair (regression loss, classification
  loss). The literal \<open>1e-5\<close> is the real number \<open>1 / 100000\<close>.
\<close>

definition eagle_loss ::
  "real tensor3 \<Rightarrow> real tensor3 \<Rightarrow> real tensor3 \<Rightarrow> real tensor3 \<Rightarrow> real tensor2
     \<Rightarrow> error + (real \<times> real)" where
  "eagle_loss hidden_states logits eagle_hidden_states eagle_logits loss_mask =
     (let loss_mask = unsqueeze_last loss_mask in
      bindE (broadcast3 (*) (softmax3 logits) (log_softmax3 eagle_logits)) (\<lambda>classification_loss.
      bindE (broadcast3 (*) loss_mask classification_loss) (\<lambda>masked.
      let classification_loss =
            - sum_all2 (sum_last3 masked) / (sum_all3 loss_mask + 1 / 100000) in
      bindE (broadcast3 (\<lambda>x y. smooth_l1 (x - y)) eagle_hidden_states hidden_states)
        (\<lambda>regression_loss.
      bindE (broadcast3 (*) loss_mask regression_loss) (\<lambda>masked_regression.
      let regression_loss =
            sum_all2 (mean_last3 masked_regression) / (sum_all3 loss_mask + 1 / 100000) in
      Inr (regression_loss, classification_loss))))))"

section \<open>Shifting by one token\<close>

text \<open>
  \<open>torch.cat((x[:, 1:], zeropadding), dim=1)\<close> with \<open>zeropadding\<close> of sequence length 1
  and the batch (and feature) sizes of \<open>x\<close>: the slice \<open>x[:, 1:]\<close> has sequence length
  \<open>seq - 1\<close> (0 for an empty sequence), the concatenation one more. Both operands have
  the same batch and feature sizes by construction, so the concatenation cannot raise.
\<close>

definition shift3 :: "'a::zero tensor3 \<Rightarrow> 'a tensor3" where
  "shift3 x = \<lparr>batch3 = batch3 x, seq3 = (seq3 x - 1) + 1, feat3 = feat3 x,
                at3 = (\<lambda>b s v. if s < seq3 x - 1 then at3 x b (s + 1) v else 0)\<rparr>"

definition shift2 :: "'a::zero tensor2 \<Rightarrow> 'a tensor2" where
  "shift2 x = \<lparr>rows2 = rows2 x, cols2 = (cols2 x - 1) + 1,
                at2 = (\<lambda>b s. if s < cols2 x - 1 then at2 x b (s + 1) else 0)\<rparr>"

section \<open>Draft decoder layer\<close>

text \<open>
  \<open>torch.cat([x, y], dim=-1)\<close>: the batch and sequence sizes must agree, the feature
  sizes add up.
\<close>

definition cat_last3 :: "'a tensor3 \<Rightarrow> 'a tensor3 \<Rightarrow> error + 'a tensor3" where
  "cat_last3 x y =
     (if batch3 x = batch3 y \<and> seq3 x = seq3 y
      then Inr \<lparr>batch3 = batch3 x, seq3 = seq3 x, feat3 = feat3 x + feat3 y,
                at3 = (\<lambda>b s f. if f < feat3 x then at3 x b s f else at3 y b s (f - feat3 x))\<rparr>
      else Inl RuntimeError)"

text \<open>
  The learned submodules of a \<open>ModifiedLlamaDecoderLayer\<close> are collaborators: each is a
  function that returns a tensor or raises. \<open>self_attn\<close> (a \<open>ModifiedLlamaAttention\<close>)
  takes the concatenated stream, the attention mask, the position ids, the cache, the
  \<open>output_attentions\<close> flag and the rotary position embeddings (cosine, sine); it returns
  the attention output and the attention weights, and the cache it has updated in place.
  It reads the attention mask and never writes to it (\<open>eager_attention_forward\<close> adds
  the mask to the attention weights). Its numerics are outside the properties stated
  below.
\<close>

record 'c decoder_layer =
  input_layernorm :: "real tensor3 \<Rightarrow> error + real tensor3"
  hidden_norm :: "real tensor3 \<Rightarrow> error + real tensor3"
  self_attn :: "real tensor3 \<Rightarrow> real tensor4 option \<Rightarrow> int tensor2 \<Rightarrow> 'c \<Rightarrow> bool
                  \<Rightarrow> real tensor3 \<times> real tensor3 \<Rightarrow> error + (real tensor3 \<times> real tensor4 \<times> 'c)"
  post_attention_layernorm :: "real tensor3 \<Rightarrow> error + real tensor3"
  mlp :: "real tensor3 \<Rightarrow> error + real tensor3"

text \<open>
  \<open>ModifiedLlamaDecoderLayer.forward\<close>. The source binds \<open>residual = hidden_states\<close> and
  never reads it again: both residual additions are commented out. The result is the
  tuple \<open>(hidden_states,)\<close>, extended by the attention weights when \<open>output_attentions\<close>
  is set, together with the updated cache.
\<close>

definition decoder_layer_forward ::
  "'c decoder_layer \<Rightarrow> real tensor3 \<Rightarrow> real tensor3 \<Rightarrow> real tensor4 option \<Rightarrow> int tensor2 \<Rightarrow> 'c
     \<Rightarrow> bool \<Rightarrow> real tensor3 \<times> real tensor3
     \<Rightarrow> error + ((real tensor3 \<times> real tensor4 option) \<times> 'c)" where
  "decoder_layer_forward layer hidden_states input_embeds attention_mask position_ids
       past_key_value output_attentions position_embeddings =
     bindE (input_layernorm layer input_embeds) (\<lambda>embeds.
     bindE (hidden_norm layer hidden_states) (\<lambda>normed_hidden.
     bindE (cat_last3 embeds normed_hidden) (\<lambda>concatenated.
     bindE (self_attn layer concatenated attention_mask position_ids past_key_value
              output_attentions position_embeddings)
       (\<lambda>(attn_output, self_attn_weights, cache).
     bindE (post_attention_layernorm layer attn_output) (\<lambda>normed_attn.
     bindE (mlp layer normed_attn) (\<lambda>out.
     Inr ((out, if output_attentions then Some self_attn_weights else None), cache)))))))"

section \<open>Draft module\<close>

text \<open>
  \<open>EagleModule\<close>: the projection \<open>fc\<close>, the decoder layers, the optional last
  normalisation (\<open>hasattr(self, "norm")\<close>) and the output head.
\<close>

record 'c eagle_module =
  fc :: "real tensor3 \<Rightarrow> error + real tensor3"
  layers :: "'c decoder_layer list"
  norm_layer :: "(real tensor3 \<Rightarrow> error + real tensor3) option"
  lm_head :: "real tensor3 \<Rightarrow> error + real tensor3"

text \<open>The loop over \<open>self.layers\<close>; only \<open>layer_outputs[0]\<close> is carried on.\<close>

fun run_layers ::
  "'c decoder_layer list \<Rightarrow> real tensor3 \<Rightarrow> real tensor3 \<Rightarrow> real tensor4 option \<Rightarrow> int tensor2
     \<Rightarrow> 'c \<Rightarrow> bool \<Rightarrow> real tensor3 \<times> real tensor3 \<Rightarrow> error + (real tensor3 \<times> 'c)" where
  "run_layers [] hidden_states inputs_embeds attention_mask position_ids cache
       output_attentions position_embeddings = Inr (hidden_states, cache)"
| "run_layers (layer # rest) hidden_states inputs_embeds attention_mask position_ids cache
       output_attentions position_embeddings =
     bindE (decoder_layer_forward layer hidden_states inputs_embeds attention_mask position_ids
              cache output_attentions position_embeddings)
       (\<lambda>(layer_outputs, cache').
          run_layers rest (fst layer_outputs) inputs_embeds attention_mask position_ids cache'
            output_attentions position_embeddings)"

text \<open>
  \<open>EagleModule.forward\<close>. \<open>fmin\<close> is \<open>torch.finfo(dtype).min\<close> and \<open>seq_length_of\<close> is
  the cache's \<open>get_seq_length()\<close>. The result is the tuple (unmodified input projection,
  final hidden states, logits, cache).
\<close>

definition eagle_module_forward ::
  "real \<Rightarrow> ('c \<Rightarrow> nat) \<Rightarrow> 'c eagle_module \<Rightarrow> real tensor3 \<Rightarrow> real tensor3 \<Rightarrow> real tensor4 option
     \<Rightarrow> int tensor2 \<Rightarrow> 'c \<Rightarrow> bool \<Rightarrow> real tensor3 \<times> real tensor3
     \<Rightarrow> error + (real tensor3 \<times> real tensor3 \<times> real tensor3 \<times> 'c)" where
  "eagle_module_forward fmin seq_length_of draft hidden_states inputs_embeds attention_mask
       position_ids past_key_values output_attentions position_embeddings =
     (let proj_hidden_states = hidden_states in
      bindE (prepare_tree_attention_mask fmin attention_mask (seq3 hidden_states)
               (seq_length_of past_key_values)) (\<lambda>tree_mask.
      bindE (run_layers (layers draft) hidden_states inputs_embeds tree_mask position_ids
               past_key_values output_attentions position_embeddings)
        (\<lambda>(hidden_states, cache).
      bindE (case norm_layer draft of None \<Rightarrow> Inr hidden_states | Some n \<Rightarrow> n hidden_states)
        (\<lambda>hidden_states.
      bindE (lm_head draft hidden_states) (\<lambda>logits.
      Inr (proj_hidden_states, hidden_states, logits, cache))))))"

section \<open>Speculative rollout engine\<close>

subsection \<open>Python and PyTorch helpers\<close>

text \<open>\<open>xs[i]\<close> on a tuple or list: a negative index counts from the end.\<close>

definition tuple_item :: "'a list \<Rightarrow> int \<Rightarrow> error + 'a" where
  "tuple_item xs i =
     (if 0 \<le> i \<and> i < int (length xs) then Inr (xs ! nat i)
      else if i < 0 \<and> 0 \<le> int (length xs) + i then Inr (xs ! nat (int (length xs) + i))
      else Inl IndexError)"

text \<open>A list comprehension over a function that can raise: the first exception wins.\<close>

fun mapE :: "('a \<Rightarrow> error + 'b) \<Rightarrow> 'a list \<Rightarrow> error + 'b list" where
  "mapE f [] = Inr []"
| "mapE f (x # xs) = bindE (f x) (\<lambda>y. bindE (mapE f xs) (\<lambda>ys. Inr (y # ys)))"

text \<open>\<open>torch.cat(xs, dim=-1)\<close> on a list of tensors; an empty list raises.\<close>

fun cat_last_list :: "'a tensor3 list \<Rightarrow> error + 'a tensor3" where
  "cat_last_list [] = Inl RuntimeError"
| "cat_last_list [x] = Inr x"
| "cat_last_list (x # y # ys) = bindE (cat_last3 x y) (\<lambda>xy. cat_last_list (xy # ys))"

text \<open>\<open>torch.arange(0, n).unsqueeze(0)\<close>.\<close>

definition arange_row :: "nat \<Rightarrow> int tensor2" where
  "arange_row n = \<lparr>rows2 = 1, cols2 = n, at2 = (\<lambda>_ c. int c)\<rparr>"

text \<open>
  \<open>x.view(-1, n)\<close>: the entries in row-major order, \<open>n\<close> per row. It raises when the
  number of entries is not a multiple of \<open>n\<close>, and for every \<open>n = 0\<close> (with no entries the
  size \<open>-1\<close> is ambiguous, with entries the shape is invalid).
\<close>

definition view_rows :: "'a tensor2 \<Rightarrow> nat \<Rightarrow> error + 'a tensor2" where
  "view_rows x n =
     (let numel = rows2 x * cols2 x in
      if n = 0 \<or> numel mod n \<noteq> 0 then Inl RuntimeError
      else Inr \<lparr>rows2 = numel div n, cols2 = n,
                at2 = (\<lambda>r c. at2 x ((r * n + c) div cols2 x) ((r * n + c) mod cols2 x))\<rparr>)"

definition add_scalar2 :: "int tensor2 \<Rightarrow> int \<Rightarrow> int tensor2" where
  "add_scalar2 x k = x\<lparr>at2 := (\<lambda>r c. at2 x r c + k)\<rparr>"

text \<open>\<open>torch.ones((b, s), dtype=torch.bool)\<close>, with \<open>True\<close> as 1.\<close>

definition ones2 :: "nat \<Rightarrow> nat \<Rightarrow> int tensor2" where
  "ones2 b s = \<lparr>rows2 = b, cols2 = s, at2 = (\<lambda>_ _. 1)\<rparr>"

text \<open>\<open>xs[:k]\<close> for a Python integer \<open>k\<close>: a negative stop counts from the end.\<close>

definition slice_to :: "'a list \<Rightarrow> int \<Rightarrow> 'a list" where
  "slice_to xs k = (if 0 \<le> k then take (nat k) xs else take (length xs - nat (- k)) xs)"

text \<open>
  \<open>m[:, :, rs, cs] = v\<close> with two index lists (advanced indexing): the lists are paired
  entry by entry, a list of length 1 is repeated, any other pair of lengths raises; an
  index outside the tensor raises. Every paired (row, column) entry is overwritten in
  every batch and head.
\<close>

definition index_pairs :: "nat list \<Rightarrow> nat list \<Rightarrow> error + (nat \<times> nat) list" where
  "index_pairs rs cs =
     (if length rs = length cs then Inr (zip rs cs)
      else if length rs = 1 then Inr (map (\<lambda>c. (hd rs, c)) cs)
      else if length cs = 1 then Inr (map (\<lambda>r. (r, hd cs)) rs)
      else Inl IndexError)"

definition index_put4 :: "'a tensor4 \<Rightarrow> nat list \<Rightarrow> nat list \<Rightarrow> 'a \<Rightarrow> error + 'a tensor4" where
  "index_put4 m rs cs v =
     bindE (index_pairs rs cs) (\<lambda>pairs.
     if list_all (\<lambda>(r, c). r < tgt4 m \<and> c < src4 m) pairs
     then Inr (m\<lparr>at4 := (\<lambda>b h t s. if (t, s) \<in> set pairs then v else at4 m b h t s)\<rparr>)
     else Inl IndexError)"

text \<open>
  The attention mask update of step \<open>i\<close>:
  \<open>ind = torch.arange(seq_length); ind0 = ind[i:]; ind1 = ind[:seq_length-i];
  attention_mask[:, :, ind0, ind1] = torch.finfo(attention_mask.dtype).min\<close>.
\<close>

definition block_band :: "real \<Rightarrow> nat \<Rightarrow> nat \<Rightarrow> real tensor4 \<Rightarrow> error + real tensor4" where
  "block_band fmin seq_length i attention_mask =
     (let ind = [0..<seq_length];
          ind0 = drop i ind;
          ind1 = slice_to ind (int seq_length - int i)
      in index_put4 attention_mask ind0 ind1 fmin)"

text \<open>
  \<open>loss_weight = [0.8 ** i for i in range(4)]\<close> and
  \<open>sum([loss_weight[i] * loss_list[i] for i in range(4)])\<close>: indexing a list beyond its
  end raises \<open>IndexError\<close>; \<open>sum\<close> adds the terms from the left, starting at 0.
\<close>

definition list_item :: "'a list \<Rightarrow> nat \<Rightarrow> error + 'a" where
  "list_item xs i = (if i < length xs then Inr (xs ! i) else Inl IndexError)"

definition loss_weight :: "real list" where
  "loss_weight = map (\<lambda>i. (8 / 10) ^ i) [0..<4]"

definition decayed_loss :: "real list \<Rightarrow> error + real" where
  "decayed_loss loss_list =
     bindE (mapE (\<lambda>i. bindE (list_item loss_weight i) (\<lambda>w.
                       bindE (list_item loss_list i) (\<lambda>l. Inr (w * l)))) [0..<4])
       (\<lambda>terms. Inr (foldl (+) 0 terms))"

subsection \<open>The model, its arguments and its result\<close>

text \<open>
  The backbone returns its per-layer hidden states, its logits, and artifacts that the
  engine only passes through (\<open>past_key_values\<close>, \<open>attentions\<close>).
\<close>

record 'o base_outputs =
  out_hidden_states :: "real tensor3 list"
  out_logits :: "real tensor3"
  out_other :: 'o

text \<open>
  An \<open>HFEagleModel\<close>: its configuration and its collaborators. \<open>base_forward\<close> is
  \<open>super().forward\<close> (called with \<open>labels=None\<close> and \<open>output_hidden_states=True\<close>),
  together with the conversion of its cache to a \<open>Cache\<close> object, whose result the
  engine does not read;
  \<open>make_causal_mask\<close> and \<open>expand_mask\<close> are the helpers of \<open>eagle.utils\<close>;
  \<open>finfo_min\<close> is \<open>torch.finfo(dtype).min\<close> for the dtype of the hidden states;
  \<open>get_rank\<close> is \<open>torch.distributed.get_rank()\<close>, which raises without a process group;
  \<open>new_cache\<close> is \<open>DynamicCache()\<close> and \<open>get_seq_length\<close> its method;
  \<open>cross_entropy_loss\<close> is \<open>CrossEntropyLoss()\<close> on the flattened logits and labels.
\<close>

record ('c, 'x, 'o) hf_eagle_model =
  base_forward :: "int tensor2 \<Rightarrow> int tensor2 option \<Rightarrow> int tensor2 option \<Rightarrow> bool \<Rightarrow> 'x
                     \<Rightarrow> error + 'o base_outputs"
  use_aux_hidden_state :: bool
  eagle_aux_hidden_state_layer_ids :: "int list"
  eagle_module :: "'c eagle_module"
  embed_tokens :: "int tensor2 \<Rightarrow> error + real tensor3"
  rotary_emb :: "real tensor3 \<Rightarrow> int tensor2 \<Rightarrow> error + (real tensor3 \<times> real tensor3)"
  make_causal_mask :: "nat \<times> nat \<Rightarrow> nat \<Rightarrow> error + real tensor4"
  expand_mask :: "int tensor2 \<Rightarrow> nat \<Rightarrow> error + real tensor4"
  finfo_min :: real
  get_rank :: "error + int"
  new_cache :: 'c
  get_seq_length :: "'c \<Rightarrow> nat"
  cross_entropy_loss :: "real tensor3 \<Rightarrow> int tensor2 \<Rightarrow> error + real"

text \<open>
  The arguments of \<open>HFEagleModel.forward\<close>. \<open>arg_other\<close> collects the arguments that are
  only handed to the backbone (\<open>past_key_values\<close>, \<open>inputs_embeds\<close>, \<open>use_cache\<close>,
  \<open>cache_position\<close>, \<open>logits_to_keep\<close>, \<open>kwargs\<close>).
\<close>

record 'x forward_args =
  arg_input_ids :: "int tensor2"
  arg_attention_mask :: "int tensor2 option"
  arg_position_ids :: "int tensor2 option"
  arg_labels :: "int tensor2 option"
  arg_output_attentions :: bool
  arg_loss_mask :: "real tensor2 option"
  arg_freeze_base_model :: bool
  arg_other :: 'x

text \<open>The returned \<open>ModelOutput\<close>.\<close>

record 'o model_output =
  mo_loss :: real
  mo_logits :: "real tensor3"
  mo_eagle_logits :: "real tensor3"
  mo_hidden_states :: "real tensor3 list"
  mo_other :: 'o

text \<open>
  The variables the loop reads and rebinds (\<open>eagle_logits\<close> is unbound before the first
  step), and the ones it only reads.
\<close>

record 'c rollout_state =
  st_hidden_states :: "real tensor3"
  st_logits :: "real tensor3"
  st_input_ids :: "int tensor2"
  st_loss_mask :: "real tensor2 option"
  st_attention_mask :: "real tensor4"
  st_eagle_cache :: 'c
  st_eagle_logits :: "real tensor3 option"
  st_loss_list :: "real list"

record rollout_consts =
  rc_target_hidden_states :: "real tensor3"
  rc_original_position_ids :: "int tensor2"
  rc_seq_length :: nat

subsection \<open>The decoder attention mask\<close>

text \<open>\<open>HFEagleModel._prepare_decoder_attention_mask\<close>.\<close>

definition prepare_decoder_attention_mask ::
  "('c, 'x, 'o) hf_eagle_model \<Rightarrow> int tensor2 option \<Rightarrow> nat \<times> nat \<Rightarrow> nat
     \<Rightarrow> error + real tensor4 option" where
  "prepare_decoder_attention_mask M attention_mask input_shape past_key_values_length =
     bindE (if 1 < snd input_shape
            then bindE (make_causal_mask M input_shape past_key_values_length) (\<lambda>c. Inr (Some c))
            else Inr None) (\<lambda>combined_attention_mask.
     case attention_mask of
       None \<Rightarrow> Inr combined_attention_mask
     | Some am \<Rightarrow>
         bindE (expand_mask M am (snd input_shape)) (\<lambda>expanded_attn_mask.
         case combined_attention_mask of
           None \<Rightarrow> Inr (Some expanded_attn_mask)
         | Some c \<Rightarrow> bindE (broadcast4 (+) expanded_attn_mask c) (\<lambda>s. Inr (Some s))))"

subsection \<open>One speculative step\<close>

text \<open>
  The first part of the loop body: the rank check of the diagnostic print, the
  step-relative position ids, the embedding of the (shifted) input ids, the rotary
  embeddings and the call of the draft module.
\<close>

definition draft_step ::
  "('c, 'x, 'o) hf_eagle_model \<Rightarrow> 'x forward_args \<Rightarrow> rollout_consts \<Rightarrow> 'c rollout_state
     \<Rightarrow> error + (real tensor3 \<times> real tensor3 \<times> real tensor3 \<times> 'c)" where
  "draft_step M args rc st =
     bindE (get_rank M) (\<lambda>rank.
     let cache_length = get_seq_length M (st_eagle_cache st);
         current_position_ids = add_scalar2 (rc_original_position_ids rc) (int cache_length)
     in
     bindE (embed_tokens M (st_input_ids st)) (\<lambda>inputs_embeds.
     bindE (rotary_emb M (st_hidden_states st) current_position_ids) (\<lambda>position_embeddings.
     eagle_module_forward (finfo_min M) (get_seq_length M) (eagle_module M)
       (st_hidden_states st) inputs_embeds (Some (st_attention_mask st)) current_position_ids
       (st_eagle_cache st) (arg_output_attentions args) position_embeddings)))"

text \<open>
  The two losses that the loop body computes in state \<open>st\<close>: the result of the call
  \<open>self._eagle_loss(target_hidden_states, logits, eagle_hidden_states, eagle_logits,
  loss_mask)\<close> on the output of the draft module, as the pair (regression loss,
  classification loss); \<open>None\<close> without a loss mask.
\<close>

definition step_losses ::
  "('c, 'x, 'o) hf_eagle_model \<Rightarrow> 'x forward_args \<Rightarrow> rollout_consts \<Rightarrow> 'c rollout_state
     \<Rightarrow> error + (real \<times> real) option" where
  "step_losses M args rc st =
     bindE (draft_step M args rc st) (\<lambda>(proj, eagle_hidden_states, eagle_logits, eagle_cache).
     case st_loss_mask st of
       None \<Rightarrow> Inr None
     | Some loss_mask \<Rightarrow>
         bindE (eagle_loss (rc_target_hidden_states rc) (st_logits st)
                  eagle_hidden_states eagle_logits loss_mask) (\<lambda>losses. Inr (Some losses)))"

text \<open>
  The body of \<open>for i in range(4)\<close>. The base-model loss is computed when the base model
  is not frozen and labels are given; its value is overwritten after the loop. With a
  loss mask, \<open>_eagle_loss\<close> returns the regression and the classification loss, and the
  classification loss is appended to \<open>loss_list\<close>. For \<open>i < 3\<close> the logits, the input ids
  and the loss mask are shifted and the attention mask is updated.
\<close>

definition eagle_step ::
  "('c, 'x, 'o) hf_eagle_model \<Rightarrow> 'x forward_args \<Rightarrow> rollout_consts \<Rightarrow> nat \<Rightarrow> 'c rollout_state
     \<Rightarrow> error + 'c rollout_state" where
  "eagle_step M args rc i st =
     bindE (draft_step M args rc st) (\<lambda>(proj, eagle_hidden_states, eagle_logits, eagle_cache).
     bindE (if \<not> arg_freeze_base_model args
            then (case arg_labels args of
                    None \<Rightarrow> Inr None
                  | Some labels \<Rightarrow>
                      bindE (cross_entropy_loss M (st_logits st) labels) (\<lambda>l. Inr (Some l)))
            else Inr None) (\<lambda>base_model_loss.
     bindE (case st_loss_mask st of
              None \<Rightarrow> Inr (st_loss_list st)
            | Some loss_mask \<Rightarrow>
                bindE (eagle_loss (rc_target_hidden_states rc) (st_logits st)
                         eagle_hidden_states eagle_logits loss_mask)
                  (\<lambda>(regression_loss, classification_loss).
                     Inr (st_loss_list st @ [classification_loss]))) (\<lambda>loss_list.
     let st' = st\<lparr>st_hidden_states := eagle_hidden_states,
                  st_eagle_cache := eagle_cache,
                  st_eagle_logits := Some eagle_logits,
                  st_loss_list := loss_list\<rparr>
     in
     if i < 3
     then bindE (block_band (finfo_min M) (rc_seq_length rc) i (st_attention_mask st))
            (\<lambda>attention_mask.
               Inr (st'\<lparr>st_logits := shift3 (st_logits st),
                        st_input_ids := shift2 (st_input_ids st),
                        st_loss_mask := map_option shift2 (st_loss_mask st),
                        st_attention_mask := attention_mask\<rparr>))
     else Inr st')))"

fun run_steps ::
  "('c, 'x, 'o) hf_eagle_model \<Rightarrow> 'x forward_args \<Rightarrow> rollout_consts \<Rightarrow> nat list \<Rightarrow> 'c rollout_state
     \<Rightarrow> error + 'c rollout_state" where
  "run_steps M args rc [] st = Inr st"
| "run_steps M args rc (i # rest) st =
     bindE (eagle_step M args rc i st) (run_steps M args rc rest)"

subsection \<open>The forward pass\<close>

text \<open>Everything \<open>HFEagleModel.forward\<close> does before the loop.\<close>

definition rollout_start ::
  "('c, 'x, 'o) hf_eagle_model \<Rightarrow> 'x forward_args
     \<Rightarrow> error + (rollout_consts \<times> 'c rollout_state \<times> 'o base_outputs)" where
  "rollout_start M args =
     bindE (base_forward M (arg_input_ids args) (arg_attention_mask args) (arg_position_ids args)
              (arg_output_attentions args) (arg_other args)) (\<lambda>outputs.
     bindE (if use_aux_hidden_state M
            then bindE (mapE (tuple_item (out_hidden_states outputs))
                          (eagle_aux_hidden_state_layer_ids M)) cat_last_list
            else tuple_item (out_hidden_states outputs) (- 1)) (\<lambda>hidden_states.
     let logits = out_logits outputs in
     bindE (tuple_item (out_hidden_states outputs) (- 1)) (\<lambda>target_hidden_states.
     bindE (fc (eagle_module M) hidden_states) (\<lambda>hidden_states.
     let batch_size = batch3 hidden_states;
         seq_length = seq3 hidden_states
     in
     bindE (case arg_position_ids args of
              None \<Rightarrow> view_rows (arange_row seq_length) seq_length
            | Some p \<Rightarrow> view_rows p seq_length) (\<lambda>position_ids.
     let attention_mask = (case arg_attention_mask args of
                             None \<Rightarrow> ones2 batch_size seq_length
                           | Some a \<Rightarrow> a)
     in
     bindE (prepare_decoder_attention_mask M (Some attention_mask) (batch_size, seq_length) 0)
       (\<lambda>prepared.
     case prepared of
       None \<Rightarrow> Inl AttributeError
     | Some attention_mask \<Rightarrow>
         Inr (\<lparr>rc_target_hidden_states = target_hidden_states,
               rc_original_position_ids = position_ids,
               rc_seq_length = seq_length\<rparr>,
              \<lparr>st_hidden_states = hidden_states,
               st_logits = logits,
               st_input_ids = arg_input_ids args,
               st_loss_mask = arg_loss_mask args,
               st_attention_mask = attention_mask,
               st_eagle_cache = new_cache M,
               st_eagle_logits = None,
               st_loss_list = []\<rparr>,
              outputs)))))))"

text \<open>
  \<open>HFEagleModel.forward\<close>: the start, the four steps, the decayed sum of the recorded
  losses and the returned \<open>ModelOutput\<close>.
\<close>

definition forward ::
  "('c, 'x, 'o) hf_eagle_model \<Rightarrow> 'x forward_args \<Rightarrow> error + 'o model_output" where
  "forward M args =
     bindE (rollout_start M args) (\<lambda>(rc, st0, outputs).
     bindE (run_steps M args rc [0..<4] st0) (\<lambda>st.
     bindE (decayed_loss (st_loss_list st)) (\<lambda>loss.
     case st_eagle_logits st of
       None \<Rightarrow> Inl UnboundLocalError
     | Some eagle_logits \<Rightarrow>
         Inr \<lparr>mo_loss = loss,
              mo_logits = st_logits st,
              mo_eagle_logits = eagle_logits,
              mo_hidden_states = out_hidden_states outputs,
              mo_other = out_other outputs\<rparr>)))"


section \<open>Concrete inputs\<close>

text \<open>A small causal mask used to evaluate the builder on concrete input.\<close>

definition example_mask :: "real tensor4" where
  "example_mask = \<lparr>bsz4 = 1, heads4 = 1, tgt4 = 2, src4 = 2,
                    at4 = (\<lambda>b h t s. if s \<le> t then 0 else - 1)\<rparr>"

text \<open>One token with two equally likely vocabulary entries, and an all-ones mask.\<close>

definition ex_logits :: "real tensor3" where
  "ex_logits = \<lparr>batch3 = 1, seq3 = 1, feat3 = 2, at3 = (\<lambda>_ _ _. 0)\<rparr>"

definition ex_hidden :: "real tensor3" where
  "ex_hidden = \<lparr>batch3 = 1, seq3 = 1, feat3 = 1, at3 = (\<lambda>_ _ _. 0)\<rparr>"

definition ex_ones :: "real tensor2" where
  "ex_ones = \<lparr>rows2 = 1, cols2 = 1, at2 = (\<lambda>_ _. 1)\<rparr>"

text \<open>
  A small model for evaluating the engine: one sequence of four tokens, hidden size 1,
  a vocabulary of two entries, one draft layer whose attention returns ones and whose
  feed-forward part doubles its input, a cache that only counts its length, and -1 as
  the blocking sentinel.
\<close>

definition toy_layer :: "nat decoder_layer" where
  "toy_layer = \<lparr>
     input_layernorm = Inr,
     hidden_norm = Inr,
     self_attn = (\<lambda>x am pos c oa pe.
        Inr (\<lparr>batch3 = batch3 x, seq3 = seq3 x, feat3 = feat3 x div 2, at3 = (\<lambda>_ _ _. 1)\<rparr>,
             full4 (batch3 x) 1 (seq3 x) (c + seq3 x) 0,
             c + seq3 x)),
     post_attention_layernorm = Inr,
     mlp = (\<lambda>x. Inr (x\<lparr>at3 := (\<lambda>b s f. 2 * at3 x b s f)\<rparr>))\<rparr>"

definition toy_hidden :: "real tensor3" where
  "toy_hidden = \<lparr>batch3 = 1, seq3 = 4, feat3 = 1, at3 = (\<lambda>_ s _. 5 + real s)\<rparr>"

definition toy_logits :: "real tensor3" where
  "toy_logits = \<lparr>batch3 = 1, seq3 = 4, feat3 = 2, at3 = (\<lambda>_ s v. if v = 0 then real (s + 1) else 0)\<rparr>"

definition toy_model :: "(nat, unit, unit) hf_eagle_model" where
  "toy_model = \<lparr>
     base_forward = (\<lambda>ids am pos oa x.
        Inr \<lparr>out_hidden_states = [toy_hidden], out_logits = toy_logits, out_other = ()\<rparr>),
     use_aux_hidden_state = False,
     eagle_aux_hidden_state_layer_ids = [],
     eagle_module = \<lparr>fc = Inr, layers = [toy_layer], norm_layer = None,
        lm_head = (\<lambda>x. Inr \<lparr>batch3 = batch3 x, seq3 = seq3 x, feat3 = 2, at3 = (\<lambda>_ _ _. 0)\<rparr>)\<rparr>,
     embed_tokens = (\<lambda>ids. Inr \<lparr>batch3 = rows2 ids, seq3 = cols2 ids, feat3 = 1,
        at3 = (\<lambda>b s _. real_of_int (at2 ids b s))\<rparr>),
     rotary_emb = (\<lambda>x pos. Inr (x, x)),
     make_causal_mask = (\<lambda>(b, s) p. Inr \<lparr>bsz4 = b, heads4 = 1, tgt4 = s, src4 = s + p,
        at4 = (\<lambda>_ _ t c. if c \<le> t + p then 0 else - 1)\<rparr>),
     expand_mask = (\<lambda>am t. Inr (full4 (rows2 am) 1 t (cols2 am) 0)),
     finfo_min = - 1,
     get_rank = Inr 0,
     new_cache = 0,
     get_seq_length = (\<lambda>c. c),
     cross_entropy_loss = (\<lambda>l y. Inr 0)\<rparr>"

definition toy_args :: "unit forward_args" where
  "toy_args = \<lparr>
     arg_input_ids = \<lparr>rows2 = 1, cols2 = 4, at2 = (\<lambda>_ s. 7 + int s)\<rparr>,
     arg_attention_mask = None,
     arg_position_ids = None,
     arg_labels = None,
     arg_output_attentions = False,
     arg_loss_mask = Some \<lparr>rows2 = 1, cols2 = 4, at2 = (\<lambda>_ _. 1)\<rparr>,
     arg_freeze_base_model = True,
     arg_other = ()\<rparr>"

text \<open>The same call without a loss mask.\<close>

definition toy_args_no_mask :: "unit forward_args" where
  "toy_args_no_mask = toy_args\<lparr>arg_loss_mask := None\<rparr>"

section \<open>Properties of the tree attention mask builder\<close>

lemma fold_set_entry_dims:
  "bsz4 (fold (\<lambda>i ext. if P i then set_entry ext (f i) (g i) v else ext) xs e) = bsz4 e \<and>
   heads4 (fold (\<lambda>i ext. if P i then set_entry ext (f i) (g i) v else ext) xs e) = heads4 e \<and>
   tgt4 (fold (\<lambda>i ext. if P i then set_entry ext (f i) (g i) v else ext) xs e) = tgt4 e \<and>
   src4 (fold (\<lambda>i ext. if P i then set_entry ext (f i) (g i) v else ext) xs e) = src4 e"
  by (induction xs arbitrary: e) (simp_all add: set_entry_def)

lemma fold_set_entry_at:
  "at4 (fold (\<lambda>i ext. if P i then set_entry ext (f i) (g i) v else ext) xs e) b h t s =
     (if \<exists>i \<in> set xs. P i \<and> t = f i \<and> s = g i then v else at4 e b h t s)"
  by (induction xs arbitrary: e) (auto simp: set_entry_def)

lemma diagonal_block_dims:
  "bsz4 (diagonal_block sl q T E k e) = bsz4 e"
  "heads4 (diagonal_block sl q T E k e) = heads4 e"
  "tgt4 (diagonal_block sl q T E k e) = tgt4 e"
  "src4 (diagonal_block sl q T E k e) = src4 e"
  using fold_set_entry_dims[of "\<lambda>i. sl + k * q + i < E" "\<lambda>i. i" "\<lambda>i. sl + k * q + i" 0 "[0..<min T q]" e]
  by (simp_all add: diagonal_block_def Let_def)

lemma diagonal_block_at:
  "at4 (diagonal_block sl q T E k e) b h t s =
     (if t < min T q \<and> s = sl + k * q + t \<and> s < E then 0 else at4 e b h t s)"
  using fold_set_entry_at[of "\<lambda>i. sl + k * q + i < E" "\<lambda>i. i" "\<lambda>i. sl + k * q + i" 0 "[0..<min T q]" e b h t s]
  by (auto simp add: diagonal_block_def Let_def)

lemma fold_diagonal_block_dims:
  "bsz4 (fold (diagonal_block sl q T E) ks e) = bsz4 e \<and>
   heads4 (fold (diagonal_block sl q T E) ks e) = heads4 e \<and>
   tgt4 (fold (diagonal_block sl q T E) ks e) = tgt4 e \<and>
   src4 (fold (diagonal_block sl q T E) ks e) = src4 e"
  by (induction ks arbitrary: e) (simp_all add: diagonal_block_dims)

lemma fold_diagonal_block_at:
  "at4 (fold (diagonal_block sl q T E) ks e) b h t s =
     (if \<exists>k \<in> set ks. t < min T q \<and> s = sl + k * q + t \<and> s < E then 0 else at4 e b h t s)"
  by (induction ks arbitrary: e) (auto simp: diagonal_block_at)


lemma prepare_tree_result:
  assumes "0 < cache_len" "0 < seq_lens"
  shows "prepare_tree_attention_mask fmin (Some m) seq_lens cache_len =
           Inr (Some (fold (diagonal_block (src4 m) seq_lens (tgt4 m) (src4 m + cache_len))
                  [0..<cache_len div seq_lens]
                  (assign_low_cols (full4 (bsz4 m) (heads4 m) (tgt4 m) (src4 m + cache_len) fmin)
                     (src4 m) m)))"
  using assms by (simp add: prepare_tree_attention_mask_def Let_def)

lemma whole_block_index:
  assumes "0 < (q::nat)"
  shows "(\<exists>k<n div q. t < min T q \<and> c = k * q + t) \<longleftrightarrow>
         (c div q < n div q \<and> c mod q = t \<and> t < T)"
proof
  assume "\<exists>k<n div q. t < min T q \<and> c = k * q + t"
  then obtain k where k: "k < n div q" "t < T" "t < q" "c = k * q + t" by auto
  from k(3,4) have "c div q = k" "c mod q = t" by simp_all
  with k show "c div q < n div q \<and> c mod q = t \<and> t < T" by simp
next
  assume a: "c div q < n div q \<and> c mod q = t \<and> t < T"
  then have "t < q" using assms mod_less_divisor by blast
  moreover have "c = (c div q) * q + t" using a by (metis div_mult_mod_eq)
  ultimately show "\<exists>k<n div q. t < min T q \<and> c = k * q + t" using a by auto
qed

lemma whole_block_in_cache:
  assumes "k < n div (q::nat)" "i < q"
  shows "k * q + i < n"
proof -
  have "k * q + i < (Suc k) * q" using assms by simp
  also have "\<dots> \<le> (n div q) * q" using assms(1) by (simp add: Suc_leI mult_le_mono1 del: mult_Suc)
  also have "\<dots> \<le> n" by simp
  finally show ?thesis .
qed

lemma prepare_tree_at_ext:
  assumes "0 < cache_len" "0 < seq_lens"
    and r: "prepare_tree_attention_mask fmin (Some m) seq_lens cache_len = Inr (Some ext)"
    and "t < tgt4 m" "c < cache_len"
  shows "at4 ext b h t (src4 m + c) =
           (if c div seq_lens < cache_len div seq_lens \<and> c mod seq_lens = t then 0 else fmin)"
proof -
  have e: "ext = fold (diagonal_block (src4 m) seq_lens (tgt4 m) (src4 m + cache_len))
                  [0..<cache_len div seq_lens]
                  (assign_low_cols (full4 (bsz4 m) (heads4 m) (tgt4 m) (src4 m + cache_len) fmin)
                     (src4 m) m)"
    using r prepare_tree_result[OF assms(1,2), of fmin m] by simp
  have "at4 ext b h t (src4 m + c) =
          (if \<exists>k<cache_len div seq_lens. t < min (tgt4 m) seq_lens \<and> c = k * seq_lens + t
           then 0 else fmin)"
    unfolding e using assms(5)
    by (auto simp add: fold_diagonal_block_at assign_low_cols_def full4_def)
  then show ?thesis
    using whole_block_index[OF assms(2), of cache_len t "tgt4 m" c] assms(4) by auto
qed

lemma card_whole_blocks:
  assumes "0 < (q::nat)"
  shows "card {(t, c). t < T \<and> c < n \<and> c div q < n div q \<and> c mod q = t} = (n div q) * min T q"
proof -
  define f where "f = (\<lambda>(k::nat, i::nat). (i, k * q + i))"
  define D where "D = {..<n div q} \<times> {..<min T q}"
  define S where "S = {(t, c). t < T \<and> c < n \<and> c div q < n div q \<and> c mod q = t}"
  have inj: "inj_on f D"
  proof (rule inj_onI)
    fix x y assume "x \<in> D" "y \<in> D" and e: "f x = f y"
    obtain k i where x: "x = (k, i)" by (cases x)
    obtain k' i' where y: "y = (k', i')" by (cases y)
    from e have p: "(i, k * q + i) = (i', k' * q + i')"
      by (simp only: f_def x y prod.case)
    then have a: "i = i' \<and> k * q + i = k' * q + i'" by blast
    then have ii: "i = i'" by (rule conjunct1)
    from a have "k * q = k' * q" by linarith
    then have "k = k'" using assms by simp
    with ii show "x = y" by (simp add: x y)
  qed
  have "S \<subseteq> f ` D"
  proof
    fix x assume "x \<in> S"
    then obtain t c where x: "x = (t, c)" and t: "t < T" and d: "c div q < n div q"
      and m: "c mod q = t"
      unfolding S_def by blast
    have "t < q" using m assms mod_less_divisor by blast
    then have "(c div q, t) \<in> D" using t d by (simp add: D_def)
    moreover have "c div q * q + t = c" unfolding m[symmetric] by simp
    then have "f (c div q, t) = x" by (simp add: f_def x)
    ultimately show "x \<in> f ` D" by (rule rev_image_eqI[OF _ sym])
  qed
  moreover have "f ` D \<subseteq> S"
  proof
    fix x assume "x \<in> f ` D"
    then obtain y where y: "y \<in> D" and xy: "x = f y" by blast
    obtain k i where ki: "y = (k, i)" by (cases y)
    have k: "k < n div q" and i: "i < T" "i < q" using y by (simp_all add: D_def ki)
    have "k * q + i < n" using whole_block_in_cache[OF k i(2)] .
    moreover have "(k * q + i) div q = k" "(k * q + i) mod q = i" using i(2) by simp_all
    ultimately show "x \<in> S" using k i by (simp add: S_def xy ki f_def)
  qed
  ultimately have "S = f ` D" by (rule subset_antisym)
  then have "card S = card D" using card_image[OF inj] by simp
  then show ?thesis by (simp add: S_def D_def)
qed


text \<open>
  Claim C4. For a mask of shape \<open>[bsz, heads, tgt_len, src_len]\<close>, a cache length
  \<open>cache_len > 0\<close> and a step length \<open>seq_lens > 0\<close> (the block count of the claim
  divides by it), the builder returns a mask of shape
  \<open>[bsz, heads, tgt_len, src_len + cache_len]\<close>. Its columns below \<open>src_len\<close> are the input
  mask. In the extended columns the entries \<open>[i, src_len + k * seq_lens + i]\<close> for every
  whole block \<open>k < cache_len div seq_lens\<close> and \<open>i < min tgt_len seq_lens\<close> are 0, every
  other entry is \<open>fmin\<close>, in particular every entry in the remainder columns from
  \<open>(cache_len div seq_lens) * seq_lens\<close> on; so for \<open>fmin \<noteq> 0\<close> each batch and head has
  exactly \<open>(cache_len div seq_lens) * min tgt_len seq_lens\<close> allowed entries there.
\<close>

theorem tree_mask_whole_blocks:
  assumes "0 < cache_len" and "0 < seq_lens"
  shows "\<exists>ext. prepare_tree_attention_mask fmin (Some m) seq_lens cache_len = Inr (Some ext) \<and>
           bsz4 ext = bsz4 m \<and> heads4 ext = heads4 m \<and> tgt4 ext = tgt4 m \<and>
           src4 ext = src4 m + cache_len \<and>
           (\<forall>b h t s. s < src4 m \<longrightarrow> at4 ext b h t s = at4 m b h t s) \<and>
           (\<forall>b h k i. k < cache_len div seq_lens \<longrightarrow> i < min (tgt4 m) seq_lens \<longrightarrow>
                at4 ext b h i (src4 m + k * seq_lens + i) = 0) \<and>
           (\<forall>b h t c. t < tgt4 m \<longrightarrow> c < cache_len \<longrightarrow>
                \<not> (\<exists>k<cache_len div seq_lens. \<exists>i<min (tgt4 m) seq_lens.
                       t = i \<and> c = k * seq_lens + i) \<longrightarrow>
                at4 ext b h t (src4 m + c) = fmin) \<and>
           (\<forall>b h t c. t < tgt4 m \<longrightarrow> (cache_len div seq_lens) * seq_lens \<le> c \<longrightarrow> c < cache_len \<longrightarrow>
                at4 ext b h t (src4 m + c) = fmin) \<and>
           (fmin \<noteq> 0 \<longrightarrow>
              (\<forall>b h. card {(t, c). t < tgt4 m \<and> c < cache_len \<and> at4 ext b h t (src4 m + c) = 0}
                     = (cache_len div seq_lens) * min (tgt4 m) seq_lens))"
proof -
  define ext where "ext = fold (diagonal_block (src4 m) seq_lens (tgt4 m) (src4 m + cache_len))
                  [0..<cache_len div seq_lens]
                  (assign_low_cols (full4 (bsz4 m) (heads4 m) (tgt4 m) (src4 m + cache_len) fmin)
                     (src4 m) m)"
  have r: "prepare_tree_attention_mask fmin (Some m) seq_lens cache_len = Inr (Some ext)"
    unfolding ext_def by (rule prepare_tree_result[OF assms])
  have dims: "bsz4 ext = bsz4 m" "heads4 ext = heads4 m" "tgt4 ext = tgt4 m"
    "src4 ext = src4 m + cache_len"
    unfolding ext_def
    by (simp_all add: fold_diagonal_block_dims assign_low_cols_def full4_def)
  have low: "at4 ext b h t s = at4 m b h t s" if "s < src4 m" for b h t s
    unfolding ext_def using that
    by (simp add: fold_diagonal_block_at assign_low_cols_def full4_def)
  have cols: "at4 ext b h t (src4 m + c) =
           (if c div seq_lens < cache_len div seq_lens \<and> c mod seq_lens = t then 0 else fmin)"
    if "t < tgt4 m" "c < cache_len" for b h t c
    using prepare_tree_at_ext[OF assms r that] .
  have diag: "at4 ext b h i (src4 m + k * seq_lens + i) = 0"
    if k: "k < cache_len div seq_lens" and i: "i < min (tgt4 m) seq_lens" for b h k i
  proof -
    have "i < seq_lens" "i < tgt4 m" using i by simp_all
    have "k * seq_lens + i < cache_len" using whole_block_in_cache[OF k \<open>i < seq_lens\<close>] .
    then have "at4 ext b h i (src4 m + (k * seq_lens + i)) = 0"
      using cols[OF \<open>i < tgt4 m\<close>, of "k * seq_lens + i" b h] k \<open>i < seq_lens\<close> by simp
    then show ?thesis by (simp add: add.assoc)
  qed
  have off: "at4 ext b h t (src4 m + c) = fmin"
    if t: "t < tgt4 m" and c: "c < cache_len"
      and n: "\<not> (\<exists>k<cache_len div seq_lens. \<exists>i<min (tgt4 m) seq_lens. t = i \<and> c = k * seq_lens + i)"
    for b h t c
  proof -
    have "\<not> (c div seq_lens < cache_len div seq_lens \<and> c mod seq_lens = t \<and> t < tgt4 m)"
      using n whole_block_index[OF assms(2), of cache_len t "tgt4 m" c] by auto
    then show ?thesis using cols[OF t c, of b h] t by auto
  qed
  have rest: "at4 ext b h t (src4 m + c) = fmin"
    if t: "t < tgt4 m" and lo: "(cache_len div seq_lens) * seq_lens \<le> c" and c: "c < cache_len"
    for b h t c
  proof -
    have "cache_len div seq_lens \<le> c div seq_lens"
      using lo assms(2) by (metis div_le_mono div_mult_self_is_m)
    then show ?thesis using cols[OF t c, of b h] by simp
  qed
  have cnt: "card {(t, c). t < tgt4 m \<and> c < cache_len \<and> at4 ext b h t (src4 m + c) = 0}
                     = (cache_len div seq_lens) * min (tgt4 m) seq_lens"
    if nz: "fmin \<noteq> 0" for b h
  proof -
    have "{(t, c). t < tgt4 m \<and> c < cache_len \<and> at4 ext b h t (src4 m + c) = 0} =
          {(t, c). t < tgt4 m \<and> c < cache_len \<and> c div seq_lens < cache_len div seq_lens \<and>
                   c mod seq_lens = t}"
      using cols nz by (auto split: if_splits)
    then show ?thesis using card_whole_blocks[OF assms(2), of "tgt4 m" cache_len] by simp
  qed
  show ?thesis
    using r dims low diag off rest cnt by blast
qed

text \<open>
  Claim C5. With an empty cache (\<open>cache_len = 0\<close>) the builder returns its input mask as it
  is, for every mask (also an absent one), every step length and every sentinel.
\<close>

theorem tree_mask_empty_cache_identity:
  "prepare_tree_attention_mask fmin attention_mask seq_lens 0 = Inr attention_mask"
  by (simp add: prepare_tree_attention_mask_def split: option.split)

text \<open>
  Outside the reach of claim C4: a step length of 0 with a non-empty cache makes the floor
  division raise.
\<close>

lemma tree_mask_zero_seq_lens:
  "0 < cache_len \<Longrightarrow>
   prepare_tree_attention_mask fmin (Some m) 0 cache_len = Inl ZeroDivisionError"
  by (simp add: prepare_tree_attention_mask_def Let_def)


text \<open>
  The builder on \<open>example_mask\<close> (2 by 2) with step length 2 and cache length 5: two whole
  blocks, one remainder column, four allowed entries in the extended columns.
\<close>

theorem tree_mask_whole_blocks_witness:
  "\<exists>ext. prepare_tree_attention_mask (- 1) (Some example_mask) 2 5 = Inr (Some ext) \<and>
         tgt4 ext = 2 \<and> src4 ext = 7 \<and>
         at4 ext 0 0 1 0 = 0 \<and> at4 ext 0 0 0 1 = - 1 \<and>
         at4 ext 0 0 0 2 = 0 \<and> at4 ext 0 0 1 5 = 0 \<and> at4 ext 0 0 1 2 = - 1 \<and>
         at4 ext 0 0 0 6 = - 1 \<and>
         card {(t, c). t < (2::nat) \<and> c < (5::nat) \<and> at4 ext 0 0 t (2 + c) = 0} = 4"
proof -
  have h1: "(0::nat) < 5" and h2: "(0::nat) < 2" by simp_all
  obtain ext where r: "prepare_tree_attention_mask (- 1) (Some example_mask) 2 5 = Inr (Some ext)"
    and d: "tgt4 ext = tgt4 example_mask" "src4 ext = src4 example_mask + 5"
    and low: "\<forall>b h t s. s < src4 example_mask \<longrightarrow> at4 ext b h t s = at4 example_mask b h t s"
    and diag: "\<forall>b h k i. k < (5::nat) div 2 \<longrightarrow> i < min (tgt4 example_mask) 2 \<longrightarrow>
                at4 ext b h i (src4 example_mask + k * 2 + i) = 0"
    and off: "\<forall>b h t c. t < tgt4 example_mask \<longrightarrow> c < 5 \<longrightarrow>
                \<not> (\<exists>k<(5::nat) div 2. \<exists>i<min (tgt4 example_mask) 2. t = i \<and> c = k * 2 + i) \<longrightarrow>
                at4 ext b h t (src4 example_mask + c) = - 1"
    and rest: "\<forall>b h t c. t < tgt4 example_mask \<longrightarrow> (5 div 2) * 2 \<le> c \<longrightarrow> c < 5 \<longrightarrow>
                at4 ext b h t (src4 example_mask + c) = - 1"
    and cnt: "(- 1::real) \<noteq> 0 \<longrightarrow>
              (\<forall>b h. card {(t, c). t < tgt4 example_mask \<and> c < 5 \<and>
                                  at4 ext b h t (src4 example_mask + c) = 0}
                     = (5 div 2) * min (tgt4 example_mask) 2)"
    using tree_mask_whole_blocks[OF h1 h2, of "- 1" example_mask] by blast
  have s: "src4 example_mask = 2" "tgt4 example_mask = 2" by (simp_all add: example_mask_def)
  have a: "at4 ext 0 0 1 0 = 0" "at4 ext 0 0 0 1 = - 1"
    using low by (simp_all add: example_mask_def)
  have b0: "at4 ext 0 0 0 (2 + 0 * 2 + 0) = 0" using diag[rule_format, of 0 0 0 0] s by simp
  have b1: "at4 ext 0 0 1 (2 + 1 * 2 + 1) = 0" using diag[rule_format, of 1 1 0 0] s by simp
  have c0: "at4 ext 0 0 1 (2 + 0) = - 1"
    using off[rule_format, of 1 0 0 0] s by auto
  have c1: "at4 ext 0 0 0 (2 + 4) = - 1"
    using rest[rule_format, of 0 4 0 0] s by simp
  have n: "card {(t, c). t < (2::nat) \<and> c < (5::nat) \<and> at4 ext 0 0 t (2 + c) = 0} = 4"
    using cnt s by simp
  show ?thesis using r d s a b0 b1 c0 c1 n by simp
qed

section \<open>Properties of the auxiliary loss function\<close>

lemma bidx_less: "i < d \<Longrightarrow> bidx d i = i"
  by (auto simp: bidx_def)

lemma bdim_same: "bdim d d = Inr d"
  by (simp add: bdim_def)

lemma bdim_one_left: "bdim (Suc 0) d = Inr d"
  by (simp add: bdim_def)

lemma bindE_Inr: "bindE (Inr x) f = f x"
  by (simp add: bindE_def)

lemma bindE_Inl: "bindE (Inl e) f = Inl e"
  by (simp add: bindE_def)

lemma bindE_eq_Inr: "bindE m f = Inr y \<longleftrightarrow> (\<exists>x. m = Inr x \<and> f x = Inr y)"
  by (cases m) (simp_all add: bindE_def)

lemma smooth_l1_zero: "smooth_l1 0 = 0"
  by (simp add: smooth_l1_def)

lemma broadcast3_matching:
  assumes "batch3 x = batch3 y" "seq3 x = seq3 y" "bdim (feat3 x) (feat3 y) = Inr v"
  shows "broadcast3 f x y =
           Inr \<lparr>batch3 = batch3 y, seq3 = seq3 y, feat3 = v,
                at3 = (\<lambda>i j k. f (at3 x (bidx (batch3 x) i) (bidx (seq3 x) j) (bidx (feat3 x) k))
                                  (at3 y (bidx (batch3 y) i) (bidx (seq3 y) j) (bidx (feat3 y) k)))\<rparr>"
  using assms by (simp add: broadcast3_def bdim_same bindE_Inr)

lemma sum3_cong:
  assumes "\<And>b s v. b < B \<Longrightarrow> s < S \<Longrightarrow> v < V \<Longrightarrow> f b s v = g b s v"
  shows "(\<Sum>b<B. \<Sum>s<S. \<Sum>v<V. f b s v) = (\<Sum>b<B. \<Sum>s<S. \<Sum>v<(V::nat). (g b s v :: real))"
  using assms by (intro sum.cong refl) simp

lemma sum3_mean_cong:
  assumes "\<And>b s v. b < B \<Longrightarrow> s < S \<Longrightarrow> v < V \<Longrightarrow> f b s v = g b s v"
  shows "(\<Sum>b<B. \<Sum>s<S. (\<Sum>v<V. f b s v) / c) = (\<Sum>b<B. \<Sum>s<S. (\<Sum>v<(V::nat). (g b s v :: real)) / c)"
proof -
  have "(\<Sum>v<V. f b s v) = (\<Sum>v<V. g b s v)" if "b < B" "s < S" for b s
    using assms that by (intro sum.cong refl) simp
  then show ?thesis by (intro sum.cong refl) simp
qed

text \<open>The value of the loss on inputs of matching shapes.\<close>

lemma eagle_loss_matching_shapes:
  assumes el: "batch3 el = batch3 l" "seq3 el = seq3 l" "feat3 el = feat3 l"
    and eh: "batch3 eh = batch3 h" "seq3 eh = seq3 h" "feat3 eh = feat3 h"
    and h: "batch3 h = batch3 l" "seq3 h = seq3 l"
    and m: "rows2 m = batch3 l" "cols2 m = seq3 l"
  shows "eagle_loss h l eh el m =
     Inr ((\<Sum>b<batch3 l. \<Sum>s<seq3 l.
             (\<Sum>f<feat3 h. at2 m b s * smooth_l1 (at3 eh b s f - at3 h b s f)) / real (feat3 h))
            / ((\<Sum>b<batch3 l. \<Sum>s<seq3 l. at2 m b s) + 1 / 100000),
          - (\<Sum>b<batch3 l. \<Sum>s<seq3 l. \<Sum>v<feat3 l.
               at2 m b s * (at3 (softmax3 l) b s v * at3 (log_softmax3 el) b s v))
            / ((\<Sum>b<batch3 l. \<Sum>s<seq3 l. at2 m b s) + 1 / 100000))"
proof -
  define C where "C = \<lparr>batch3 = batch3 el, seq3 = seq3 el, feat3 = feat3 l,
     at3 = (\<lambda>i j k. at3 (softmax3 l) (bidx (batch3 l) i) (bidx (seq3 l) j) (bidx (feat3 l) k) *
                      at3 (log_softmax3 el) (bidx (batch3 el) i) (bidx (seq3 el) j) (bidx (feat3 el) k))\<rparr>"
  define MC where "MC = \<lparr>batch3 = batch3 C, seq3 = seq3 C, feat3 = feat3 l,
     at3 = (\<lambda>i j k. at2 m (bidx (rows2 m) i) (bidx (cols2 m) j) *
                      at3 C (bidx (batch3 C) i) (bidx (seq3 C) j) (bidx (feat3 C) k))\<rparr>"
  define R where "R = \<lparr>batch3 = batch3 h, seq3 = seq3 h, feat3 = feat3 h,
     at3 = (\<lambda>i j k. smooth_l1 (at3 eh (bidx (batch3 eh) i) (bidx (seq3 eh) j) (bidx (feat3 eh) k) -
                                 at3 h (bidx (batch3 h) i) (bidx (seq3 h) j) (bidx (feat3 h) k)))\<rparr>"
  define MR where "MR = \<lparr>batch3 = batch3 R, seq3 = seq3 R, feat3 = feat3 h,
     at3 = (\<lambda>i j k. at2 m (bidx (rows2 m) i) (bidx (cols2 m) j) *
                      at3 R (bidx (batch3 R) i) (bidx (seq3 R) j) (bidx (feat3 R) k))\<rparr>"
  have c: "broadcast3 (*) (softmax3 l) (log_softmax3 el) = Inr C"
    using el by (simp add: broadcast3_matching[where v = "feat3 l"] softmax3_def log_softmax3_def
        bdim_same C_def)
  have mc: "broadcast3 (*) (unsqueeze_last m) C = Inr MC"
    using el m by (simp add: broadcast3_matching[where v = "feat3 l"] unsqueeze_last_def
        bdim_one_left C_def MC_def bidx_def)
  have r: "broadcast3 (\<lambda>x y. smooth_l1 (x - y)) eh h = Inr R"
    using eh by (simp add: broadcast3_matching[where v = "feat3 h"] bdim_same R_def)
  have mr: "broadcast3 (*) (unsqueeze_last m) R = Inr MR"
    using eh h m by (simp add: broadcast3_matching[where v = "feat3 h"] unsqueeze_last_def
        bdim_one_left R_def MR_def bidx_def)
  have den: "sum_all3 (unsqueeze_last m) = (\<Sum>b<batch3 l. \<Sum>s<seq3 l. at2 m b s)"
    using m by (simp add: sum_all3_def unsqueeze_last_def)
  have cs: "sum_all2 (sum_last3 MC) = (\<Sum>b<batch3 l. \<Sum>s<seq3 l. \<Sum>v<feat3 l.
               at2 m b s * (at3 (softmax3 l) b s v * at3 (log_softmax3 el) b s v))"
    unfolding sum_all2_def sum_last3_def
    using el m by (simp add: MC_def C_def) (rule sum3_cong, simp add: bidx_less)
  have rs: "sum_all2 (mean_last3 MR) = (\<Sum>b<batch3 l. \<Sum>s<seq3 l.
             (\<Sum>f<feat3 h. at2 m b s * smooth_l1 (at3 eh b s f - at3 h b s f)) / real (feat3 h))"
    unfolding sum_all2_def mean_last3_def
    using eh h m by (simp add: MR_def R_def) (rule sum3_mean_cong, simp add: bidx_less)
  show ?thesis
    by (simp add: eagle_loss_def Let_def c mc r mr bindE_Inr den cs rs)
qed

lemma exp_sum_pos: "0 < V \<Longrightarrow> 0 < (\<Sum>u<(V::nat). exp (f u :: real))"
  by (rule sum_pos) auto

lemma exp_le_exp_sum: "v < V \<Longrightarrow> exp (f v :: real) \<le> (\<Sum>u<(V::nat). exp (f u))"
  by (rule member_le_sum) auto

text \<open>One softmax probability and the matching log-softmax value.\<close>

lemma softmax_times_log_softmax:
  assumes "v < (V::nat)"
  shows "exp (f v) / (\<Sum>u<V. exp (f u)) * (f v - ln (\<Sum>u<V. exp (f u))) =
         exp (f v) / (\<Sum>u<V. exp (f u)) * ln (exp (f v :: real) / (\<Sum>u<V. exp (f u)))"
proof -
  have "0 < (\<Sum>u<V. exp (f u))" using assms exp_sum_pos[of V f] by simp
  then have "ln (exp (f v) / (\<Sum>u<V. exp (f u))) = f v - ln (\<Sum>u<V. exp (f u))"
    by (simp add: ln_div)
  then show ?thesis by simp
qed

lemma softmax_entropy_term_nonpos:
  assumes "v < (V::nat)"
  shows "exp (f v) / (\<Sum>u<V. exp (f u)) * ln (exp (f v :: real) / (\<Sum>u<V. exp (f u))) \<le> 0"
proof -
  have z: "0 < (\<Sum>u<V. exp (f u))" using assms exp_sum_pos[of V f] by simp
  have p: "0 < exp (f v) / (\<Sum>u<V. exp (f u))" using z by simp
  have "exp (f v) / (\<Sum>u<V. exp (f u)) \<le> 1" using z exp_le_exp_sum[OF assms, of f] by simp
  then have "ln (exp (f v) / (\<Sum>u<V. exp (f u))) \<le> 0" using p by simp
  then show ?thesis by (rule mult_nonneg_nonpos[OF less_imp_le[OF p]])
qed

lemma token_entropy_nonneg:
  "0 \<le> - (\<Sum>v<(V::nat). exp (f v) / (\<Sum>u<V. exp (f u)) * ln (exp (f v :: real) / (\<Sum>u<V. exp (f u))))"
proof -
  have "(\<Sum>v<V. exp (f v) / (\<Sum>u<V. exp (f u)) * ln (exp (f v) / (\<Sum>u<V. exp (f u)))) \<le> 0"
    by (rule sum_nonpos) (rule softmax_entropy_term_nonpos, simp)
  then show ?thesis by simp
qed

lemma softmax3_at:
  "at3 (softmax3 x) b s v = exp (at3 x b s v) / (\<Sum>u<feat3 x. exp (at3 x b s u))"
  by (simp add: softmax3_def)

lemma log_softmax3_at:
  "at3 (log_softmax3 x) b s v = at3 x b s v - ln (\<Sum>u<feat3 x. exp (at3 x b s u))"
  by (simp add: log_softmax3_def)

lemma token_cross_entropy_eq:
  "(\<Sum>v<(V::nat). exp (f v) / (\<Sum>u<V. exp (f u)) * (f v - ln (\<Sum>u<V. exp (f u)))) =
   (\<Sum>v<V. exp (f v) / (\<Sum>u<V. exp (f u)) * ln (exp (f v :: real) / (\<Sum>u<V. exp (f u))))"
  by (rule sum.cong[OF refl]) (simp only: lessThan_iff softmax_times_log_softmax)

lemma token_cross_entropy_nonneg:
  "0 \<le> - (\<Sum>v<(V::nat). exp (f v) / (\<Sum>u<V. exp (f u)) * (f v - ln (\<Sum>u<V. exp (f u :: real))))"
  unfolding token_cross_entropy_eq by (rule token_entropy_nonneg)

lemma token_cross_entropy_small_vocab:
  assumes "V \<le> (1::nat)"
  shows "(\<Sum>v<V. exp (f v) / (\<Sum>u<V. exp (f u)) * (f v - ln (\<Sum>u<V. exp (f u :: real)))) = 0"
proof (cases "V = 0")
  case True
  then show ?thesis by simp
next
  case False
  then have "V = 1" using assms by simp
  then show ?thesis by simp
qed

text \<open>
  Claim C2, as the code has it. On well-formed inputs (hidden states \<open>[B, S, H]\<close> with
  \<open>H > 0\<close>, logits \<open>[B, S, V]\<close>, mask \<open>[B, S]\<close>) whose draft tensors are identical to the
  backbone tensors and whose mask is all ones, the regression loss is exactly 0. The
  classification loss is the soft cross-entropy of the backbone distribution with itself:
  minus the sum over all tokens and vocabulary entries of
  \<open>softmax(logits) * log_softmax(logits)\<close>, divided by \<open>B * S + 1e-5\<close>. It is
  non-negative, and it is 0 when there is no token or the vocabulary has at most one
  entry; for larger vocabularies it need not be 0.
\<close>

theorem eagle_loss_identical_inputs:
  fixes hidden logits eh el :: "real tensor3" and m :: "real tensor2"
  assumes hs: "batch3 hidden = batch3 logits" "seq3 hidden = seq3 logits" "0 < feat3 hidden"
    and eh: "batch3 eh = batch3 hidden" "seq3 eh = seq3 hidden" "feat3 eh = feat3 hidden"
    and ehv: "\<forall>b<batch3 hidden. \<forall>s<seq3 hidden. \<forall>f<feat3 hidden. at3 eh b s f = at3 hidden b s f"
    and el: "batch3 el = batch3 logits" "seq3 el = seq3 logits" "feat3 el = feat3 logits"
    and elv: "\<forall>b<batch3 logits. \<forall>s<seq3 logits. \<forall>v<feat3 logits. at3 el b s v = at3 logits b s v"
    and m: "rows2 m = batch3 logits" "cols2 m = seq3 logits"
    and mv: "\<forall>b<batch3 logits. \<forall>s<seq3 logits. at2 m b s = 1"
  shows "\<exists>cl. eagle_loss hidden logits eh el m = Inr (0, cl) \<and>
           cl = - (\<Sum>b<batch3 logits. \<Sum>s<seq3 logits. \<Sum>v<feat3 logits.
                     at3 (softmax3 logits) b s v * at3 (log_softmax3 logits) b s v)
                / (real (batch3 logits * seq3 logits) + 1 / 100000) \<and>
           0 \<le> cl \<and>
           (batch3 logits = 0 \<or> seq3 logits = 0 \<or> feat3 logits \<le> 1 \<longrightarrow> cl = 0)"
proof -
  define B where "B = batch3 logits"
  define S where "S = seq3 logits"
  define V where "V = feat3 logits"
  define H where "H = (\<lambda>b s. - (\<Sum>v<V. at3 (softmax3 logits) b s v * at3 (log_softmax3 logits) b s v))"
  define D where "D = real (B * S) + 1 / 100000"
  have Dpos: "0 < D" by (simp add: D_def add_nonneg_pos)
  have den: "(\<Sum>b<B. \<Sum>s<S. at2 m b s) = real (B * S)"
  proof -
    have "(\<Sum>b<B. \<Sum>s<S. at2 m b s) = (\<Sum>b<B. \<Sum>s<S. (1::real))"
      using mv by (intro sum.cong refl) (simp add: B_def S_def)
    then show ?thesis by simp
  qed
  have reg: "(\<Sum>b<B. \<Sum>s<S.
               (\<Sum>f<feat3 hidden. at2 m b s * smooth_l1 (at3 eh b s f - at3 hidden b s f))
                 / real (feat3 hidden)) = 0"
  proof -
    have "(\<Sum>f<feat3 hidden. at2 m b s * smooth_l1 (at3 eh b s f - at3 hidden b s f)) = 0"
      if "b < B" "s < S" for b s
      using that ehv hs by (intro sum.neutral) (simp add: B_def S_def smooth_l1_zero)
    then show ?thesis by (intro sum.neutral) simp
  qed
  have cls: "(\<Sum>b<B. \<Sum>s<S. \<Sum>v<V.
                 at2 m b s * (at3 (softmax3 logits) b s v * at3 (log_softmax3 el) b s v))
             = (\<Sum>b<B. \<Sum>s<S. \<Sum>v<V.
                 at3 (softmax3 logits) b s v * at3 (log_softmax3 logits) b s v)"
  proof (rule sum3_cong)
    fix b s v assume r: "b < B" "s < S" "v < V"
    have z: "(\<Sum>u<V. exp (at3 el b s u)) = (\<Sum>u<V. exp (at3 logits b s u))"
      using elv r by (intro sum.cong refl) (simp add: B_def S_def V_def)
    have e: "at3 el b s v = at3 logits b s v" using elv r by (simp add: B_def S_def V_def)
    have "at3 (log_softmax3 el) b s v = at3 (log_softmax3 logits) b s v"
      using el(3) by (simp add: log_softmax3_at z e V_def[symmetric])
    moreover have "at2 m b s = 1" using mv r by (simp add: B_def S_def)
    ultimately show "at2 m b s * (at3 (softmax3 logits) b s v * at3 (log_softmax3 el) b s v) =
          at3 (softmax3 logits) b s v * at3 (log_softmax3 logits) b s v" by simp
  qed
  have Hsum: "(\<Sum>b<B. \<Sum>s<S. H b s) =
      - (\<Sum>b<B. \<Sum>s<S. \<Sum>v<V. at3 (softmax3 logits) b s v * at3 (log_softmax3 logits) b s v)"
    by (simp add: H_def sum_negf)
  have val: "eagle_loss hidden logits eh el m = Inr (0, (\<Sum>b<B. \<Sum>s<S. H b s) / D)"
    using eagle_loss_matching_shapes[OF el eh hs(1,2) m]
    by (simp add: B_def[symmetric] S_def[symmetric] V_def[symmetric] reg cls den D_def Hsum)
  have Hnn: "0 \<le> H b s" for b s
    unfolding H_def softmax3_at log_softmax3_at V_def[symmetric]
    by (rule token_cross_entropy_nonneg)
  have nn: "0 \<le> (\<Sum>b<B. \<Sum>s<S. H b s)"
    by (intro sum_nonneg Hnn)
  have zero: "(\<Sum>b<B. \<Sum>s<S. H b s) = 0" if "B = 0 \<or> S = 0 \<or> V \<le> 1"
  proof (cases "V \<le> 1")
    case True
    have "H b s = 0" for b s
      unfolding H_def softmax3_at log_softmax3_at V_def[symmetric]
      using token_cross_entropy_small_vocab[OF True, of "at3 logits b s"] by simp
    then show ?thesis by simp
  next
    case False
    with that have "B = 0 \<or> S = 0" by simp
    then show ?thesis by auto
  qed
  have c1: "0 \<le> (\<Sum>b<B. \<Sum>s<S. H b s) / D" using nn Dpos by simp
  have c2: "B = 0 \<or> S = 0 \<or> V \<le> 1 \<longrightarrow> (\<Sum>b<B. \<Sum>s<S. H b s) / D = 0"
    using zero by simp
  have c3: "(\<Sum>b<B. \<Sum>s<S. H b s) / D =
        - (\<Sum>b<B. \<Sum>s<S. \<Sum>v<V. at3 (softmax3 logits) b s v * at3 (log_softmax3 logits) b s v)
        / (real (B * S) + 1 / 100000)"
    by (simp only: Hsum D_def)
  show ?thesis
    using val c1 c2 c3 unfolding B_def S_def V_def by blast
qed

text \<open>
  Claim C2 as stated fails: one token, a vocabulary of two entries with equal logits,
  draft tensors identical to the backbone tensors, mask all ones. The classification loss
  is \<open>ln 2 / (1 + 1e-5)\<close>, not 0.
\<close>

theorem eagle_loss_identical_not_zero:
  "eagle_loss ex_hidden ex_logits ex_hidden ex_logits ex_ones = Inr (0, 100000 * ln 2 / 100001) \<and>
   (0::real) < 100000 * ln 2 / 100001"
proof -
  have "eagle_loss ex_hidden ex_logits ex_hidden ex_logits ex_ones = Inr (0, 100000 * ln 2 / 100001)"
    by (simp add: eagle_loss_def Let_def broadcast3_def bdim_def bindE_def bidx_def
        unsqueeze_last_def softmax3_def log_softmax3_def sum_all2_def sum_all3_def sum_last3_def
        mean_last3_def smooth_l1_def ex_hidden_def ex_logits_def ex_ones_def
        lessThan_Suc numeral_2_eq_2)
  moreover have "(0::real) < 100000 * ln 2 / 100001" by simp
  ultimately show ?thesis by simp
qed

text \<open>The amended statement of claim C2 at the same input.\<close>

theorem eagle_loss_identical_inputs_witness:
  "\<exists>cl. eagle_loss ex_hidden ex_logits ex_hidden ex_logits ex_ones = Inr (0, cl) \<and>
         cl = - (\<Sum>v<2. at3 (softmax3 ex_logits) 0 0 v * at3 (log_softmax3 ex_logits) 0 0 v)
                / (1 + 1 / 100000) \<and>
         0 \<le> cl"
proof -
  have "\<exists>cl. eagle_loss ex_hidden ex_logits ex_hidden ex_logits ex_ones = Inr (0, cl) \<and>
           cl = - (\<Sum>b<batch3 ex_logits. \<Sum>s<seq3 ex_logits. \<Sum>v<feat3 ex_logits.
                     at3 (softmax3 ex_logits) b s v * at3 (log_softmax3 ex_logits) b s v)
                / (real (batch3 ex_logits * seq3 ex_logits) + 1 / 100000) \<and>
           0 \<le> cl \<and>
           (batch3 ex_logits = 0 \<or> seq3 ex_logits = 0 \<or> feat3 ex_logits \<le> 1 \<longrightarrow> cl = 0)"
    by (rule eagle_loss_identical_inputs) (simp_all add: ex_hidden_def ex_logits_def ex_ones_def)
  moreover have "batch3 ex_logits = 1" "seq3 ex_logits = 1" "feat3 ex_logits = 2"
    by (simp_all add: ex_logits_def)
  ultimately show ?thesis by auto
qed

section \<open>Properties of the shift\<close>

lemma shift3_dims:
  "batch3 (shift3 x) = batch3 x" "feat3 (shift3 x) = feat3 x"
  "0 < seq3 x \<Longrightarrow> seq3 (shift3 x) = seq3 x"
  by (simp_all add: shift3_def)

lemma shift2_dims:
  "rows2 (shift2 x) = rows2 x" "0 < cols2 x \<Longrightarrow> cols2 (shift2 x) = cols2 x"
  by (simp_all add: shift2_def)

lemma shift3_at:
  "at3 (shift3 x) b s v = (if s + 1 < seq3 x then at3 x b (s + 1) v else 0)"
  by (auto simp add: shift3_def)

lemma shift2_at:
  "at2 (shift2 x) b s = (if s + 1 < cols2 x then at2 x b (s + 1) else 0)"
  by (auto simp add: shift2_def)

lemma shift3_seq_le: "seq3 (shift3 x) = max 1 (seq3 x)"
  by (simp add: shift3_def max_def)

lemma shift2_cols_le: "cols2 (shift2 x) = max 1 (cols2 x)"
  by (simp add: shift2_def max_def)

lemma shift3_iter_dims:
  "batch3 ((shift3 ^^ k) x) = batch3 x" "feat3 ((shift3 ^^ k) x) = feat3 x"
  "0 < seq3 x \<Longrightarrow> seq3 ((shift3 ^^ k) x) = seq3 x"
  by (induction k) (simp_all add: shift3_dims)

lemma shift2_iter_dims:
  "rows2 ((shift2 ^^ k) x) = rows2 x" "0 < cols2 x \<Longrightarrow> cols2 ((shift2 ^^ k) x) = cols2 x"
  by (induction k) (simp_all add: shift2_dims)

lemma shift3_iter_seq_le: "seq3 ((shift3 ^^ k) x) \<le> max 1 (seq3 x)"
  by (induction k) (simp_all add: shift3_seq_le)

lemma shift2_iter_cols_le: "cols2 ((shift2 ^^ k) x) \<le> max 1 (cols2 x)"
  by (induction k) (simp_all add: shift2_cols_le)

lemma shift3_iter_at:
  "s < seq3 x \<or> 0 < k \<Longrightarrow>
   at3 ((shift3 ^^ k) x) b s v = (if s + k < seq3 x then at3 x b (s + k) v else 0)"
proof (induction k arbitrary: s)
  case 0
  then show ?case by simp
next
  case (Suc k)
  show ?case
  proof (cases "seq3 x = 0")
    case True
    then have "seq3 ((shift3 ^^ k) x) \<le> 1" using shift3_iter_seq_le[of k x] by simp
    then show ?thesis using True by (simp add: shift3_at)
  next
    case False
    then have "seq3 ((shift3 ^^ k) x) = seq3 x" by (simp add: shift3_iter_dims)
    then show ?thesis using Suc.IH[of "s + 1"] by (simp add: shift3_at)
  qed
qed

lemma shift2_iter_at:
  "s < cols2 x \<or> 0 < k \<Longrightarrow>
   at2 ((shift2 ^^ k) x) b s = (if s + k < cols2 x then at2 x b (s + k) else 0)"
proof (induction k arbitrary: s)
  case 0
  then show ?case by simp
next
  case (Suc k)
  show ?case
  proof (cases "cols2 x = 0")
    case True
    then have "cols2 ((shift2 ^^ k) x) \<le> 1" using shift2_iter_cols_le[of k x] by simp
    then show ?thesis using True by (simp add: shift2_at)
  next
    case False
    then have "cols2 ((shift2 ^^ k) x) = cols2 x" by (simp add: shift2_iter_dims)
    then show ?thesis using Suc.IH[of "s + 1"] by (simp add: shift2_at)
  qed
qed

section \<open>Properties of the speculative rollout engine\<close>

lemma eagle_step_cases:
  assumes "eagle_step M args rc i st = Inr st'"
  obtains proj ehs el cache ll where
    "draft_step M args rc st = Inr (proj, ehs, el, cache)"
    "case st_loss_mask st of
       None \<Rightarrow> ll = st_loss_list st
     | Some m \<Rightarrow> \<exists>rl cl. eagle_loss (rc_target_hidden_states rc) (st_logits st) ehs el m = Inr (rl, cl)
                   \<and> ll = st_loss_list st @ [cl]"
    "st_hidden_states st' = ehs" "st_eagle_cache st' = cache" "st_eagle_logits st' = Some el"
    "st_loss_list st' = ll"
    "i < 3 \<Longrightarrow> st_logits st' = shift3 (st_logits st) \<and>
               st_input_ids st' = shift2 (st_input_ids st) \<and>
               st_loss_mask st' = map_option shift2 (st_loss_mask st) \<and>
               block_band (finfo_min M) (rc_seq_length rc) i (st_attention_mask st)
                 = Inr (st_attention_mask st')"
    "\<not> i < 3 \<Longrightarrow> st_logits st' = st_logits st \<and> st_input_ids st' = st_input_ids st \<and>
               st_loss_mask st' = st_loss_mask st \<and> st_attention_mask st' = st_attention_mask st"
proof -
  from assms obtain proj ehs el cache where
    d: "draft_step M args rc st = Inr (proj, ehs, el, cache)"
    by (auto simp add: eagle_step_def bindE_eq_Inr)
  from assms d obtain ll where
    l: "(case st_loss_mask st of
              None \<Rightarrow> Inr (st_loss_list st)
            | Some loss_mask \<Rightarrow>
                bindE (eagle_loss (rc_target_hidden_states rc) (st_logits st) ehs el loss_mask)
                  (\<lambda>(regression_loss, classification_loss).
                     Inr (st_loss_list st @ [classification_loss]))) = Inr ll"
    and r: "(let st' = st\<lparr>st_hidden_states := ehs, st_eagle_cache := cache,
                  st_eagle_logits := Some el, st_loss_list := ll\<rparr>
     in
     if i < 3
     then bindE (block_band (finfo_min M) (rc_seq_length rc) i (st_attention_mask st))
            (\<lambda>attention_mask.
               Inr (st'\<lparr>st_logits := shift3 (st_logits st),
                        st_input_ids := shift2 (st_input_ids st),
                        st_loss_mask := map_option shift2 (st_loss_mask st),
                        st_attention_mask := attention_mask\<rparr>))
     else Inr st') = Inr st'"
    by (auto simp add: eagle_step_def bindE_eq_Inr bindE_Inr)
  have l': "case st_loss_mask st of
       None \<Rightarrow> ll = st_loss_list st
     | Some m \<Rightarrow> \<exists>rl cl. eagle_loss (rc_target_hidden_states rc) (st_logits st) ehs el m = Inr (rl, cl)
                   \<and> ll = st_loss_list st @ [cl]"
    using l by (auto simp add: bindE_eq_Inr split: option.splits)
  show thesis
  proof (cases "i < 3")
    case True
    with r obtain am where
      "block_band (finfo_min M) (rc_seq_length rc) i (st_attention_mask st) = Inr am"
      "st' = st\<lparr>st_hidden_states := ehs, st_eagle_cache := cache,
                  st_eagle_logits := Some el, st_loss_list := ll,
                  st_logits := shift3 (st_logits st),
                  st_input_ids := shift2 (st_input_ids st),
                  st_loss_mask := map_option shift2 (st_loss_mask st),
                  st_attention_mask := am\<rparr>"
      by (auto simp add: Let_def bindE_eq_Inr)
    with True show thesis using that[OF d l'] by simp
  next
    case False
    with r have "st' = st\<lparr>st_hidden_states := ehs, st_eagle_cache := cache,
                  st_eagle_logits := Some el, st_loss_list := ll\<rparr>"
      by (simp add: Let_def)
    with False show thesis using that[OF d l'] by simp
  qed
qed

lemma upt3: "[0..<3] = [0, 1, 2]"
  by (simp add: upt_rec)

lemma upt4: "[0..<4] = [0, 1, 2, 3]"
  by (simp add: upt_rec)

lemma run_steps_four:
  "run_steps M args rc [0..<4] s0 = Inr s4 \<longleftrightarrow>
     (\<exists>s1 s2 s3. eagle_step M args rc 0 s0 = Inr s1 \<and> eagle_step M args rc 1 s1 = Inr s2 \<and>
                 eagle_step M args rc 2 s2 = Inr s3 \<and> eagle_step M args rc 3 s3 = Inr s4)"
  by (simp add: upt4 bindE_eq_Inr)

lemma run_steps_append:
  "run_steps M args rc (xs @ ys) st = bindE (run_steps M args rc xs st) (run_steps M args rc ys)"
  by (induction xs arbitrary: st) (simp_all add: bindE_def split: sum.splits)

lemma eagle_step_losses:
  assumes "eagle_step M args rc i st = Inr st'" "st_loss_mask st = Some m"
  shows "\<exists>rl cl. step_losses M args rc st = Inr (Some (rl, cl)) \<and>
                 st_loss_list st' = st_loss_list st @ [cl]"
  using assms(1)
proof (rule eagle_step_cases)
  fix proj ehs el cache ll
  assume d: "draft_step M args rc st = Inr (proj, ehs, el, cache)"
    and l: "case st_loss_mask st of
       None \<Rightarrow> ll = st_loss_list st
     | Some m \<Rightarrow> \<exists>rl cl. eagle_loss (rc_target_hidden_states rc) (st_logits st) ehs el m = Inr (rl, cl)
                   \<and> ll = st_loss_list st @ [cl]"
    and ll: "st_loss_list st' = ll"
  from l assms(2) obtain rl cl where
    "eagle_loss (rc_target_hidden_states rc) (st_logits st) ehs el m = Inr (rl, cl)"
    "ll = st_loss_list st @ [cl]" by auto
  then show ?thesis using d ll assms(2) by (simp add: step_losses_def bindE_Inr)
qed

lemma eagle_step_no_loss_mask:
  assumes "eagle_step M args rc i st = Inr st'" "st_loss_mask st = None"
  shows "st_loss_list st' = st_loss_list st \<and> st_loss_mask st' = None"
  using assms(1)
proof (rule eagle_step_cases)
  fix proj ehs el cache ll
  assume l: "case st_loss_mask st of
       None \<Rightarrow> ll = st_loss_list st
     | Some m \<Rightarrow> \<exists>rl cl. eagle_loss (rc_target_hidden_states rc) (st_logits st) ehs el m = Inr (rl, cl)
                   \<and> ll = st_loss_list st @ [cl]"
    and ll: "st_loss_list st' = ll"
    and a: "i < 3 \<Longrightarrow> st_logits st' = shift3 (st_logits st) \<and>
               st_input_ids st' = shift2 (st_input_ids st) \<and>
               st_loss_mask st' = map_option shift2 (st_loss_mask st) \<and>
               block_band (finfo_min M) (rc_seq_length rc) i (st_attention_mask st)
                 = Inr (st_attention_mask st')"
    and b: "\<not> i < 3 \<Longrightarrow> st_logits st' = st_logits st \<and> st_input_ids st' = st_input_ids st \<and>
               st_loss_mask st' = st_loss_mask st \<and> st_attention_mask st' = st_attention_mask st"
  from l assms(2) ll have "st_loss_list st' = st_loss_list st" by simp
  moreover have "st_loss_mask st' = None" using a b assms(2) by (cases "i < 3") simp_all
  ultimately show ?thesis by simp
qed

lemma eagle_step_loss_mask:
  assumes "eagle_step M args rc i st = Inr st'" "st_loss_mask st = Some m"
  shows "\<exists>m'. st_loss_mask st' = Some m'"
  using assms(1)
proof (rule eagle_step_cases)
  fix proj ehs el cache ll
  assume a: "i < 3 \<Longrightarrow> st_logits st' = shift3 (st_logits st) \<and>
               st_input_ids st' = shift2 (st_input_ids st) \<and>
               st_loss_mask st' = map_option shift2 (st_loss_mask st) \<and>
               block_band (finfo_min M) (rc_seq_length rc) i (st_attention_mask st)
                 = Inr (st_attention_mask st')"
    and b: "\<not> i < 3 \<Longrightarrow> st_logits st' = st_logits st \<and> st_input_ids st' = st_input_ids st \<and>
               st_loss_mask st' = st_loss_mask st \<and> st_attention_mask st' = st_attention_mask st"
  show ?thesis using a b assms(2) by (cases "i < 3") simp_all
qed

lemma run_steps_no_loss_mask:
  assumes "run_steps M args rc steps st = Inr st'" "st_loss_mask st = None"
  shows "st_loss_list st' = st_loss_list st"
  using assms
proof (induction steps arbitrary: st)
  case Nil
  then show ?case by simp
next
  case (Cons i steps)
  from Cons.prems(1) obtain s1 where
    s: "eagle_step M args rc i st = Inr s1" "run_steps M args rc steps s1 = Inr st'"
    by (auto simp add: bindE_eq_Inr)
  from eagle_step_no_loss_mask[OF s(1) Cons.prems(2)] Cons.IH[OF s(2)]
  show ?case by simp
qed

lemma decayed_loss_four:
  "decayed_loss [c0, c1, c2, c3] = Inr (\<Sum>i<4. (8 / 10) ^ i * [c0, c1, c2, c3] ! i)"
  by (simp add: decayed_loss_def upt4 list_item_def loss_weight_def bindE_def
      lessThan_Suc numeral_eq_Suc)

lemma decayed_loss_short:
  assumes "length ll < 4"
  shows "decayed_loss ll = Inl IndexError"
proof -
  consider "length ll = 0" | "length ll = 1" | "length ll = 2" | "length ll = 3"
    using assms by linarith
  then show ?thesis
    by cases (simp_all add: decayed_loss_def upt4 list_item_def loss_weight_def bindE_def)
qed

lemma view_rows_Inr: "view_rows x n = Inr y \<Longrightarrow> 0 < n \<and> cols2 y = n"
  by (auto simp add: view_rows_def Let_def split: if_splits)

lemma rollout_start_state:
  assumes "rollout_start M args = Inr (rc, s0, outputs)"
  shows "st_logits s0 = out_logits outputs \<and> st_input_ids s0 = arg_input_ids args \<and>
    st_loss_mask s0 = arg_loss_mask args \<and> st_loss_list s0 = [] \<and>
    st_eagle_cache s0 = new_cache M \<and> st_eagle_logits s0 = None \<and>
    rc_seq_length rc = seq3 (st_hidden_states s0) \<and> 0 < rc_seq_length rc"
proof -
  from assms obtain outs where
    a1: "bindE (if use_aux_hidden_state M
            then bindE (mapE (tuple_item (out_hidden_states outs))
                          (eagle_aux_hidden_state_layer_ids M)) cat_last_list
            else tuple_item (out_hidden_states outs) (- 1)) (\<lambda>hidden_states.
     let logits = out_logits outs in
     bindE (tuple_item (out_hidden_states outs) (- 1)) (\<lambda>target_hidden_states.
     bindE (fc (eagle_module M) hidden_states) (\<lambda>hidden_states.
     let batch_size = batch3 hidden_states;
         seq_length = seq3 hidden_states
     in
     bindE (case arg_position_ids args of
              None \<Rightarrow> view_rows (arange_row seq_length) seq_length
            | Some p \<Rightarrow> view_rows p seq_length) (\<lambda>position_ids.
     let attention_mask = (case arg_attention_mask args of
                             None \<Rightarrow> ones2 batch_size seq_length
                           | Some a \<Rightarrow> a)
     in
     bindE (prepare_decoder_attention_mask M (Some attention_mask) (batch_size, seq_length) 0)
       (\<lambda>prepared.
     case prepared of
       None \<Rightarrow> Inl AttributeError
     | Some attention_mask \<Rightarrow>
         Inr (\<lparr>rc_target_hidden_states = target_hidden_states,
               rc_original_position_ids = position_ids,
               rc_seq_length = seq_length\<rparr>,
              \<lparr>st_hidden_states = hidden_states,
               st_logits = logits,
               st_input_ids = arg_input_ids args,
               st_loss_mask = arg_loss_mask args,
               st_attention_mask = attention_mask,
               st_eagle_cache = new_cache M,
               st_eagle_logits = None,
               st_loss_list = []\<rparr>,
              outs)))))) = Inr (rc, s0, outputs)"
    unfolding rollout_start_def bindE_eq_Inr by blast
  then obtain h0 th h pos prepared where
    pos: "(case arg_position_ids args of
              None \<Rightarrow> view_rows (arange_row (seq3 h)) (seq3 h)
            | Some p \<Rightarrow> view_rows p (seq3 h)) = Inr pos"
    and fin: "(case prepared of
       None \<Rightarrow> Inl AttributeError
     | Some attention_mask \<Rightarrow>
         Inr (\<lparr>rc_target_hidden_states = th,
               rc_original_position_ids = pos,
               rc_seq_length = seq3 h\<rparr>,
              \<lparr>st_hidden_states = h,
               st_logits = out_logits outs,
               st_input_ids = arg_input_ids args,
               st_loss_mask = arg_loss_mask args,
               st_attention_mask = attention_mask,
               st_eagle_cache = new_cache M,
               st_eagle_logits = None,
               st_loss_list = []\<rparr>,
              outs)) = Inr (rc, s0, outputs)"
    unfolding bindE_eq_Inr Let_def by blast
  from pos have "0 < seq3 h"
    by (cases "arg_position_ids args") (auto dest: view_rows_Inr)
  moreover have "\<exists>am. rc = \<lparr>rc_target_hidden_states = th,
               rc_original_position_ids = pos,
               rc_seq_length = seq3 h\<rparr> \<and>
    s0 = \<lparr>st_hidden_states = h,
               st_logits = out_logits outs,
               st_input_ids = arg_input_ids args,
               st_loss_mask = arg_loss_mask args,
               st_attention_mask = am,
               st_eagle_cache = new_cache M,
               st_eagle_logits = None,
               st_loss_list = []\<rparr> \<and> outputs = outs"
  proof (cases prepared)
    case None
    with fin show ?thesis by (simp only: option.case sum.distinct)
  next
    case (Some am)
    with fin have "(\<lparr>rc_target_hidden_states = th,
               rc_original_position_ids = pos,
               rc_seq_length = seq3 h\<rparr>,
              \<lparr>st_hidden_states = h,
               st_logits = out_logits outs,
               st_input_ids = arg_input_ids args,
               st_loss_mask = arg_loss_mask args,
               st_attention_mask = am,
               st_eagle_cache = new_cache M,
               st_eagle_logits = None,
               st_loss_list = []\<rparr>,
              outs) = (rc, s0, outputs)"
      by (simp only: option.case sum.inject)
    then show ?thesis by blast
  qed
  then obtain am where rc: "rc = \<lparr>rc_target_hidden_states = th,
               rc_original_position_ids = pos,
               rc_seq_length = seq3 h\<rparr>"
    and s0: "s0 = \<lparr>st_hidden_states = h,
               st_logits = out_logits outs,
               st_input_ids = arg_input_ids args,
               st_loss_mask = arg_loss_mask args,
               st_attention_mask = am,
               st_eagle_cache = new_cache M,
               st_eagle_logits = None,
               st_loss_list = []\<rparr>" and o: "outputs = outs" by blast
  ultimately show ?thesis by (simp add: rc s0 o)
qed

lemma forward_cases:
  assumes "forward M args = Inr out"
  obtains rc s0 outputs s4 loss el where
    "rollout_start M args = Inr (rc, s0, outputs)"
    "run_steps M args rc [0..<4] s0 = Inr s4"
    "decayed_loss (st_loss_list s4) = Inr loss"
    "st_eagle_logits s4 = Some el"
    "mo_loss out = loss" "mo_logits out = st_logits s4" "mo_eagle_logits out = el"
    "mo_hidden_states out = out_hidden_states outputs" "mo_other out = out_other outputs"
proof -
  from assms obtain r where r: "rollout_start M args = Inr r"
    and a: "(case r of (rc, st0, outputs) \<Rightarrow>
     bindE (run_steps M args rc [0..<4] st0) (\<lambda>st.
     bindE (decayed_loss (st_loss_list st)) (\<lambda>loss.
     case st_eagle_logits st of
       None \<Rightarrow> Inl UnboundLocalError
     | Some eagle_logits \<Rightarrow>
         Inr \<lparr>mo_loss = loss,
              mo_logits = st_logits st,
              mo_eagle_logits = eagle_logits,
              mo_hidden_states = out_hidden_states outputs,
              mo_other = out_other outputs\<rparr>))) = Inr out"
    unfolding forward_def bindE_eq_Inr by blast
  obtain rc s0 outputs where r': "r = (rc, s0, outputs)" by (cases r)
  from a obtain s4 where run: "run_steps M args rc [0..<4] s0 = Inr s4"
    and b: "bindE (decayed_loss (st_loss_list s4)) (\<lambda>loss.
     case st_eagle_logits s4 of
       None \<Rightarrow> Inl UnboundLocalError
     | Some eagle_logits \<Rightarrow>
         Inr \<lparr>mo_loss = loss,
              mo_logits = st_logits s4,
              mo_eagle_logits = eagle_logits,
              mo_hidden_states = out_hidden_states outputs,
              mo_other = out_other outputs\<rparr>) = Inr out"
    unfolding r' prod.case bindE_eq_Inr by blast
  from b obtain loss where dl: "decayed_loss (st_loss_list s4) = Inr loss"
    and c: "(case st_eagle_logits s4 of
       None \<Rightarrow> Inl UnboundLocalError
     | Some eagle_logits \<Rightarrow>
         Inr \<lparr>mo_loss = loss,
              mo_logits = st_logits s4,
              mo_eagle_logits = eagle_logits,
              mo_hidden_states = out_hidden_states outputs,
              mo_other = out_other outputs\<rparr>) = Inr out"
    unfolding bindE_eq_Inr by blast
  show thesis
  proof (cases "st_eagle_logits s4")
    case None
    with c show thesis by simp
  next
    case (Some el)
    with c have "out = \<lparr>mo_loss = loss,
              mo_logits = st_logits s4,
              mo_eagle_logits = el,
              mo_hidden_states = out_hidden_states outputs,
              mo_other = out_other outputs\<rparr>" by simp
    then show thesis using that[OF r[unfolded r'] run dl Some] by simp
  qed
qed

lemma eagle_step_shifts:
  assumes "eagle_step M args rc i st = Inr st'" "i < 3"
  shows "st_logits st' = shift3 (st_logits st) \<and> st_input_ids st' = shift2 (st_input_ids st) \<and>
         st_loss_mask st' = map_option shift2 (st_loss_mask st)"
  using assms(1) by (rule eagle_step_cases) (simp add: assms(2))

lemma run_steps_shifts:
  assumes "run_steps M args rc [i..<i + k] st = Inr st'" "i + k \<le> 3"
  shows "st_logits st' = (shift3 ^^ k) (st_logits st) \<and>
         st_input_ids st' = (shift2 ^^ k) (st_input_ids st) \<and>
         st_loss_mask st' = map_option (shift2 ^^ k) (st_loss_mask st)"
  using assms
proof (induction k arbitrary: i st)
  case 0
  then show ?case by (simp add: option.map_ident)
next
  case (Suc k)
  have u: "[i..<i + Suc k] = i # [Suc i..<Suc i + k]" by (simp add: upt_rec)
  from Suc.prems(1) obtain s1 where
    e: "eagle_step M args rc i st = Inr s1"
    and r: "run_steps M args rc [Suc i..<Suc i + k] s1 = Inr st'"
    unfolding u by (auto simp add: bindE_eq_Inr)
  have "i < 3" "Suc i + k \<le> 3" using Suc.prems(2) by simp_all
  from eagle_step_shifts[OF e \<open>i < 3\<close>] Suc.IH[OF r \<open>Suc i + k \<le> 3\<close>]
  show ?case by (simp add: funpow_swap1 option.map_comp comp_def)
qed

text \<open>
  Claim C7. Take any \<open>k\<close> consecutive steps of the rollout that all shift (steps
  \<open>i, ..., i + k - 1\<close> with \<open>i + k \<le> 3\<close>; one step for \<open>k = 1\<close>), from a state whose
  logits, input ids and loss mask have sequence length at least 1. The steps replace the
  logits, the input ids and the loss mask by their \<open>k\<close>-fold left shift with zeros
  appended at the tail: the shapes are unchanged, position \<open>s\<close> holds the old position
  \<open>s + k\<close> and the positions from \<open>S - k\<close> on hold 0. So for \<open>k\<close> below the sequence
  length position 0 holds the original position \<open>k\<close>, and after the three shifts of a
  forward call the last 3 positions hold 0. (The forward pass never shifts an empty
  hidden-state sequence: it raises before the loop, see \<open>rollout_start_state\<close>.)
\<close>

theorem rollout_shifts_left_zero_pad:
  fixes lm :: "real tensor2"
  assumes run: "run_steps M args rc [i..<i + k] st = Inr st'" and k: "i + k \<le> 3"
    and nonempty: "0 < seq3 (st_logits st)" "0 < cols2 (st_input_ids st)" "0 < cols2 lm"
    and mask: "st_loss_mask st = Some lm"
  shows "st_logits st' = (shift3 ^^ k) (st_logits st) \<and>
         st_input_ids st' = (shift2 ^^ k) (st_input_ids st) \<and>
         st_loss_mask st' = Some ((shift2 ^^ k) lm) \<and>
         batch3 (st_logits st') = batch3 (st_logits st) \<and>
         seq3 (st_logits st') = seq3 (st_logits st) \<and>
         feat3 (st_logits st') = feat3 (st_logits st) \<and>
         rows2 (st_input_ids st') = rows2 (st_input_ids st) \<and>
         cols2 (st_input_ids st') = cols2 (st_input_ids st) \<and>
         (\<exists>lm'. st_loss_mask st' = Some lm' \<and> rows2 lm' = rows2 lm \<and> cols2 lm' = cols2 lm \<and>
            (\<forall>b s. s < cols2 lm \<longrightarrow>
               at2 lm' b s = (if s + k < cols2 lm then at2 lm b (s + k) else 0)) \<and>
            (k < cols2 lm \<longrightarrow> (\<forall>b. at2 lm' b 0 = at2 lm b k)) \<and>
            (k = 3 \<longrightarrow> (\<forall>b s. cols2 lm - 3 \<le> s \<longrightarrow> s < cols2 lm \<longrightarrow> at2 lm' b s = 0))) \<and>
         (\<forall>b s v. s < seq3 (st_logits st) \<longrightarrow>
            at3 (st_logits st') b s v =
              (if s + k < seq3 (st_logits st) then at3 (st_logits st) b (s + k) v else 0)) \<and>
         (\<forall>b s. s < cols2 (st_input_ids st) \<longrightarrow>
            at2 (st_input_ids st') b s =
              (if s + k < cols2 (st_input_ids st) then at2 (st_input_ids st) b (s + k) else 0)) \<and>
         (k < seq3 (st_logits st) \<longrightarrow>
            (\<forall>b v. at3 (st_logits st') b 0 v = at3 (st_logits st) b k v)) \<and>
         (k < cols2 (st_input_ids st) \<longrightarrow>
            (\<forall>b. at2 (st_input_ids st') b 0 = at2 (st_input_ids st) b k)) \<and>
         (k = 3 \<longrightarrow>
            (\<forall>b s v. seq3 (st_logits st) - 3 \<le> s \<longrightarrow> s < seq3 (st_logits st) \<longrightarrow>
               at3 (st_logits st') b s v = 0) \<and>
            (\<forall>b s. cols2 (st_input_ids st) - 3 \<le> s \<longrightarrow> s < cols2 (st_input_ids st) \<longrightarrow>
               at2 (st_input_ids st') b s = 0))"
proof -
  from run_steps_shifts[OF run k] mask have
    l: "st_logits st' = (shift3 ^^ k) (st_logits st)"
    and n: "st_input_ids st' = (shift2 ^^ k) (st_input_ids st)"
    and q: "st_loss_mask st' = Some ((shift2 ^^ k) lm)"
    by simp_all
  have dl: "batch3 (st_logits st') = batch3 (st_logits st)"
    "seq3 (st_logits st') = seq3 (st_logits st)" "feat3 (st_logits st') = feat3 (st_logits st)"
    unfolding l using nonempty(1) by (simp_all add: shift3_iter_dims)
  have dn: "rows2 (st_input_ids st') = rows2 (st_input_ids st)"
    "cols2 (st_input_ids st') = cols2 (st_input_ids st)"
    unfolding n using nonempty(2) by (simp_all add: shift2_iter_dims)
  have al: "at3 (st_logits st') b s v =
              (if s + k < seq3 (st_logits st) then at3 (st_logits st) b (s + k) v else 0)"
    if "s < seq3 (st_logits st)" for b s v
    unfolding l using that by (simp add: shift3_iter_at)
  have an: "at2 (st_input_ids st') b s =
              (if s + k < cols2 (st_input_ids st) then at2 (st_input_ids st) b (s + k) else 0)"
    if "s < cols2 (st_input_ids st)" for b s
    unfolding n using that by (simp add: shift2_iter_at)
  have am: "at2 ((shift2 ^^ k) lm) b s = (if s + k < cols2 lm then at2 lm b (s + k) else 0)"
    if "s < cols2 lm" for b s
    using that by (simp add: shift2_iter_at)
  have hl: "at3 (st_logits st') b 0 v = at3 (st_logits st) b k v"
    if "k < seq3 (st_logits st)" for b v
    using al[OF nonempty(1), of b v] that by simp
  have hn: "at2 (st_input_ids st') b 0 = at2 (st_input_ids st) b k"
    if "k < cols2 (st_input_ids st)" for b
    using an[OF nonempty(2), of b] that by simp
  have hm: "at2 ((shift2 ^^ k) lm) b 0 = at2 lm b k" if "k < cols2 lm" for b
    using am[OF nonempty(3), of b] that by simp
  have tl: "at3 (st_logits st') b s v = 0"
    if "k = 3" "seq3 (st_logits st) - 3 \<le> s" "s < seq3 (st_logits st)" for b s v
    using al[OF that(3), of b v] that(1,2) by auto
  have tn: "at2 (st_input_ids st') b s = 0"
    if "k = 3" "cols2 (st_input_ids st) - 3 \<le> s" "s < cols2 (st_input_ids st)" for b s
    using an[OF that(3), of b] that(1,2) by auto
  have tm: "at2 ((shift2 ^^ k) lm) b s = 0"
    if "k = 3" "cols2 lm - 3 \<le> s" "s < cols2 lm" for b s
    using am[OF that(3), of b] that(1,2) by auto
  have dm: "rows2 ((shift2 ^^ k) lm) = rows2 lm" "cols2 ((shift2 ^^ k) lm) = cols2 lm"
    using nonempty(3) by (simp_all add: shift2_iter_dims)
  have m': "\<exists>lm'. st_loss_mask st' = Some lm' \<and> rows2 lm' = rows2 lm \<and> cols2 lm' = cols2 lm \<and>
            (\<forall>b s. s < cols2 lm \<longrightarrow>
               at2 lm' b s = (if s + k < cols2 lm then at2 lm b (s + k) else 0)) \<and>
            (k < cols2 lm \<longrightarrow> (\<forall>b. at2 lm' b 0 = at2 lm b k)) \<and>
            (k = 3 \<longrightarrow> (\<forall>b s. cols2 lm - 3 \<le> s \<longrightarrow> s < cols2 lm \<longrightarrow> at2 lm' b s = 0))"
    using q dm am hm tm by blast
  show ?thesis
    using l n q dl dn m' al an hl hn tl tn by blast
qed

text \<open>
  Claim C1. Whenever \<open>forward\<close> returns with a loss mask given, all four steps have run,
  each of them has computed a pair of losses, the loss list holds the four classification
  losses in step order, and the returned loss is the sum over \<open>i < 4\<close> of \<open>0.8 ^ i\<close> times
  the classification loss of step \<open>i\<close>. No regression loss occurs in it.
\<close>

theorem forward_loss_is_decayed_sum:
  assumes "forward M args = Inr out" and "arg_loss_mask args = Some lm"
  shows "\<exists>rc s0 outputs s1 s2 s3 s4 r0 c0 r1 c1 r2 c2 r3 c3.
           rollout_start M args = Inr (rc, s0, outputs) \<and>
           eagle_step M args rc 0 s0 = Inr s1 \<and> eagle_step M args rc 1 s1 = Inr s2 \<and>
           eagle_step M args rc 2 s2 = Inr s3 \<and> eagle_step M args rc 3 s3 = Inr s4 \<and>
           step_losses M args rc s0 = Inr (Some (r0, c0)) \<and>
           step_losses M args rc s1 = Inr (Some (r1, c1)) \<and>
           step_losses M args rc s2 = Inr (Some (r2, c2)) \<and>
           step_losses M args rc s3 = Inr (Some (r3, c3)) \<and>
           st_loss_list s4 = [c0, c1, c2, c3] \<and>
           mo_loss out = (\<Sum>i<4. (8 / 10) ^ i * [c0, c1, c2, c3] ! i) \<and>
           mo_loss out = c0 + 8 / 10 * c1 + 64 / 100 * c2 + 512 / 1000 * c3"
proof -
  from assms(1) obtain rc s0 outputs s4 loss el where
    start: "rollout_start M args = Inr (rc, s0, outputs)"
    and run: "run_steps M args rc [0..<4] s0 = Inr s4"
    and dl: "decayed_loss (st_loss_list s4) = Inr loss"
    and out: "mo_loss out = loss"
    by (rule forward_cases)
  from run obtain s1 s2 s3 where
    e0: "eagle_step M args rc 0 s0 = Inr s1" and e1: "eagle_step M args rc 1 s1 = Inr s2"
    and e2: "eagle_step M args rc 2 s2 = Inr s3" and e3: "eagle_step M args rc 3 s3 = Inr s4"
    unfolding run_steps_four by blast
  have m0: "st_loss_mask s0 = Some lm" and l0: "st_loss_list s0 = []"
    using rollout_start_state[OF start] assms(2) by simp_all
  from eagle_step_losses[OF e0 m0] obtain r0 c0 where
    q0: "step_losses M args rc s0 = Inr (Some (r0, c0))" "st_loss_list s1 = [c0]"
    using l0 by auto
  from eagle_step_loss_mask[OF e0 m0] obtain lm1 where m1: "st_loss_mask s1 = Some lm1" by blast
  from eagle_step_losses[OF e1 m1] obtain r1 c1 where
    q1: "step_losses M args rc s1 = Inr (Some (r1, c1))" "st_loss_list s2 = [c0, c1]"
    using q0(2) by auto
  from eagle_step_loss_mask[OF e1 m1] obtain lm2 where m2: "st_loss_mask s2 = Some lm2" by blast
  from eagle_step_losses[OF e2 m2] obtain r2 c2 where
    q2: "step_losses M args rc s2 = Inr (Some (r2, c2))" "st_loss_list s3 = [c0, c1, c2]"
    using q1(2) by auto
  from eagle_step_loss_mask[OF e2 m2] obtain lm3 where m3: "st_loss_mask s3 = Some lm3" by blast
  from eagle_step_losses[OF e3 m3] obtain r3 c3 where
    q3: "step_losses M args rc s3 = Inr (Some (r3, c3))" "st_loss_list s4 = [c0, c1, c2, c3]"
    using q2(2) by auto
  have loss: "loss = (\<Sum>i<4. (8 / 10) ^ i * [c0, c1, c2, c3] ! i)"
    using dl by (simp only: q3(2) decayed_loss_four sum.inject)
  from out have ml: "mo_loss out = (\<Sum>i<4. (8 / 10) ^ i * [c0, c1, c2, c3] ! i)"
    using loss by simp
  have "(\<Sum>i<4. (8 / 10) ^ i * [c0, c1, c2, c3] ! i) = c0 + 8 / 10 * c1 + 64 / 100 * c2 + 512 / 1000 * c3"
    by (simp add: lessThan_Suc numeral_eq_Suc)
  with ml have ml': "mo_loss out = c0 + 8 / 10 * c1 + 64 / 100 * c2 + 512 / 1000 * c3" by simp
  show ?thesis
    using start e0 e1 e2 e3 q0(1) q1(1) q2(1) q3 ml ml' by blast
qed

text \<open>
  Claim C3. Without a loss mask \<open>forward\<close> never returns a result: it raises. When the
  start and the four steps have run without an exception, no loss has been recorded, and
  the decayed sum raises \<open>IndexError\<close> at \<open>loss_list[0]\<close>, which \<open>forward\<close> propagates.
\<close>

theorem forward_without_loss_mask_fails:
  assumes "arg_loss_mask args = None"
  shows "(\<exists>e. forward M args = Inl e) \<and>
         (\<forall>rc s0 outputs st.
            rollout_start M args = Inr (rc, s0, outputs) \<longrightarrow>
            run_steps M args rc [0..<4] s0 = Inr st \<longrightarrow>
            st_loss_list st = [] \<and> forward M args = Inl IndexError)"
proof -
  have steps: "st_loss_list st = [] \<and> forward M args = Inl IndexError"
    if start: "rollout_start M args = Inr (rc, s0, outputs)"
      and run: "run_steps M args rc [0..<4] s0 = Inr st" for rc s0 outputs st
  proof -
    have "st_loss_mask s0 = None" "st_loss_list s0 = []"
      using rollout_start_state[OF start] assms by simp_all
    then have e: "st_loss_list st = []" using run_steps_no_loss_mask[OF run] by simp
    then have "decayed_loss (st_loss_list st) = Inl IndexError"
      by (simp add: decayed_loss_short)
    then have "forward M args = Inl IndexError"
      by (simp add: forward_def start run bindE_Inr bindE_Inl)
    with e show ?thesis by simp
  qed
  have "\<exists>e. forward M args = Inl e"
  proof (cases "rollout_start M args")
    case (Inl e)
    then show ?thesis by (simp add: forward_def bindE_Inl)
  next
    case (Inr r)
    obtain rc s0 outputs where r: "r = (rc, s0, outputs)" by (cases r)
    show ?thesis
    proof (cases "run_steps M args rc [0..<4] s0")
      case (Inl e)
      then show ?thesis using Inr r by (simp add: forward_def bindE_Inl bindE_Inr)
    next
      case st: (Inr st)
      then show ?thesis using steps[of rc s0 outputs st] Inr r by simp
    qed
  qed
  then show ?thesis using steps by blast
qed

text \<open>
  Claim C6. A step that runs with a loss mask calls \<open>_eagle_loss\<close>, which returns both a
  regression and a classification loss; the step appends the classification loss, and
  nothing else, to the loss list. Every component of the successor state is given here
  without the regression loss. The returned total loss is the decayed sum of the loss
  list after the four steps, so the regression loss reaches neither the state nor the
  result.
\<close>

theorem step_records_classification_loss_only:
  assumes "eagle_step M args rc i st = Inr st'" and "st_loss_mask st = Some m"
  shows "(\<exists>proj ehs el cache rl cl.
            draft_step M args rc st = Inr (proj, ehs, el, cache) \<and>
            eagle_loss (rc_target_hidden_states rc) (st_logits st) ehs el m = Inr (rl, cl) \<and>
            st_loss_list st' = st_loss_list st @ [cl] \<and>
            st_hidden_states st' = ehs \<and> st_eagle_cache st' = cache \<and>
            st_eagle_logits st' = Some el \<and>
            st_logits st' = (if i < 3 then shift3 (st_logits st) else st_logits st) \<and>
            st_input_ids st' = (if i < 3 then shift2 (st_input_ids st) else st_input_ids st) \<and>
            st_loss_mask st' = Some (if i < 3 then shift2 m else m) \<and>
            (if i < 3
             then block_band (finfo_min M) (rc_seq_length rc) i (st_attention_mask st)
                    = Inr (st_attention_mask st')
             else st_attention_mask st' = st_attention_mask st)) \<and>
         (forward M args = Inr out \<longrightarrow>
            (\<exists>rc0 s0 outputs s4.
               rollout_start M args = Inr (rc0, s0, outputs) \<and>
               run_steps M args rc0 [0..<4] s0 = Inr s4 \<and>
               decayed_loss (st_loss_list s4) = Inr (mo_loss out)))"
proof -
  have step: "\<exists>proj ehs el cache rl cl.
            draft_step M args rc st = Inr (proj, ehs, el, cache) \<and>
            eagle_loss (rc_target_hidden_states rc) (st_logits st) ehs el m = Inr (rl, cl) \<and>
            st_loss_list st' = st_loss_list st @ [cl] \<and>
            st_hidden_states st' = ehs \<and> st_eagle_cache st' = cache \<and>
            st_eagle_logits st' = Some el \<and>
            st_logits st' = (if i < 3 then shift3 (st_logits st) else st_logits st) \<and>
            st_input_ids st' = (if i < 3 then shift2 (st_input_ids st) else st_input_ids st) \<and>
            st_loss_mask st' = Some (if i < 3 then shift2 m else m) \<and>
            (if i < 3
             then block_band (finfo_min M) (rc_seq_length rc) i (st_attention_mask st)
                    = Inr (st_attention_mask st')
             else st_attention_mask st' = st_attention_mask st)"
    using assms(1)
  proof (rule eagle_step_cases)
    fix proj ehs el cache ll
    assume d: "draft_step M args rc st = Inr (proj, ehs, el, cache)"
      and l: "case st_loss_mask st of
         None \<Rightarrow> ll = st_loss_list st
       | Some m \<Rightarrow> \<exists>rl cl. eagle_loss (rc_target_hidden_states rc) (st_logits st) ehs el m = Inr (rl, cl)
                     \<and> ll = st_loss_list st @ [cl]"
      and f: "st_hidden_states st' = ehs" "st_eagle_cache st' = cache"
        "st_eagle_logits st' = Some el" "st_loss_list st' = ll"
      and a: "i < 3 \<Longrightarrow> st_logits st' = shift3 (st_logits st) \<and>
               st_input_ids st' = shift2 (st_input_ids st) \<and>
               st_loss_mask st' = map_option shift2 (st_loss_mask st) \<and>
               block_band (finfo_min M) (rc_seq_length rc) i (st_attention_mask st)
                 = Inr (st_attention_mask st')"
      and b: "\<not> i < 3 \<Longrightarrow> st_logits st' = st_logits st \<and> st_input_ids st' = st_input_ids st \<and>
               st_loss_mask st' = st_loss_mask st \<and> st_attention_mask st' = st_attention_mask st"
    from l assms(2) obtain rl cl where
      e: "eagle_loss (rc_target_hidden_states rc) (st_logits st) ehs el m = Inr (rl, cl)"
      and ll: "ll = st_loss_list st @ [cl]" by auto
    show ?thesis
    proof (cases "i < 3")
      case True
      with a assms(2) d e ll f show ?thesis by simp
    next
      case False
      with b assms(2) d e ll f show ?thesis by simp
    qed
  qed
  have total: "\<exists>rc0 s0 outputs s4.
               rollout_start M args = Inr (rc0, s0, outputs) \<and>
               run_steps M args rc0 [0..<4] s0 = Inr s4 \<and>
               decayed_loss (st_loss_list s4) = Inr (mo_loss out)"
    if "forward M args = Inr out"
    using that by (rule forward_cases) auto
  from step total show ?thesis by blast
qed

text \<open>
  Claim C9. The decoder layer returns exactly what its feed-forward part returns on the
  post-attention normalisation of the self-attention output, where self-attention reads
  the concatenation of the normalised token embeddings and the normalised hidden states.
  Neither input stream is added to any intermediate value or to the result; the layer
  returns whenever all its submodules and the concatenation do.
\<close>

theorem decoder_layer_no_residual:
  "decoder_layer_forward layer hidden_states input_embeds attention_mask position_ids
       past_key_value output_attentions position_embeddings = Inr ((out, weights), cache) \<longleftrightarrow>
   (\<exists>embeds normed_hidden concatenated attn_output self_attn_weights normed_attn.
      input_layernorm layer input_embeds = Inr embeds \<and>
      hidden_norm layer hidden_states = Inr normed_hidden \<and>
      cat_last3 embeds normed_hidden = Inr concatenated \<and>
      self_attn layer concatenated attention_mask position_ids past_key_value
        output_attentions position_embeddings = Inr (attn_output, self_attn_weights, cache) \<and>
      post_attention_layernorm layer attn_output = Inr normed_attn \<and>
      mlp layer normed_attn = Inr out \<and>
      weights = (if output_attentions then Some self_attn_weights else None))"
  unfolding decoder_layer_forward_def
  by (auto simp add: bindE_eq_Inr)

section \<open>The running attention mask\<close>

lemma index_put4_props:
  assumes "index_put4 m rs cs v = Inr m'"
  shows "bsz4 m' = bsz4 m \<and> heads4 m' = heads4 m \<and> tgt4 m' = tgt4 m \<and> src4 m' = src4 m \<and>
         (\<exists>pairs. index_pairs rs cs = Inr pairs \<and>
            (\<forall>b h t s. at4 m' b h t s = (if (t, s) \<in> set pairs then v else at4 m b h t s)))"
proof -
  from assms obtain pairs where p: "index_pairs rs cs = Inr pairs"
    and r: "(if list_all (\<lambda>(r, c). r < tgt4 m \<and> c < src4 m) pairs
     then Inr (m\<lparr>at4 := (\<lambda>b h t s. if (t, s) \<in> set pairs then v else at4 m b h t s)\<rparr>)
     else Inl IndexError) = Inr m'"
    unfolding index_put4_def bindE_eq_Inr by blast
  from r have "m' = m\<lparr>at4 := (\<lambda>b h t s. if (t, s) \<in> set pairs then v else at4 m b h t s)\<rparr>"
    by (simp split: if_splits)
  then show ?thesis using p by simp
qed

lemma block_band_props:
  assumes "block_band fmin S i m = Inr m'"
  shows "bsz4 m' = bsz4 m \<and> heads4 m' = heads4 m \<and> tgt4 m' = tgt4 m \<and> src4 m' = src4 m \<and>
         (\<forall>b h t s. at4 m' b h t s = fmin \<or> at4 m' b h t s = at4 m b h t s)"
  using index_put4_props[of m "drop i [0..<S]" "slice_to [0..<S] (int S - int i)" fmin m'] assms
  by (auto simp add: block_band_def Let_def)

lemma band_pairs:
  assumes "i \<le> S"
  shows "index_pairs (drop i [0..<S]) (slice_to [0..<S] (int S - int i))
           = Inr (zip [i..<S] [0..<S - i])"
proof -
  have "slice_to [0..<S] (int S - int i) = take (S - i) [0..<S]"
    using assms by (simp add: slice_to_def nat_diff_distrib')
  also have "\<dots> = [0..<S - i]" by (simp add: take_upt)
  finally have s: "slice_to [0..<S] (int S - int i) = [0..<S - i]" .
  have d: "drop i [0..<S] = [i..<S]" by (simp add: drop_upt)
  show ?thesis by (simp add: s d index_pairs_def)
qed

lemma band_pairs_set:
  "(t, s) \<in> set (zip [i..<S] [0..<S - i]) \<longleftrightarrow> t < S \<and> t = s + i"
proof
  assume "(t, s) \<in> set (zip [i..<S] [0..<S - i])"
  then obtain n where "[i..<S] ! n = t" "[0..<S - i] ! n = s" "n < S - i"
    by (auto simp add: in_set_zip)
  then show "t < S \<and> t = s + i" by auto
next
  assume a: "t < S \<and> t = s + i"
  then have "s < S - i" by linarith
  then have "[i..<S] ! s = t" "[0..<S - i] ! s = s" using a by simp_all
  then show "(t, s) \<in> set (zip [i..<S] [0..<S - i])"
    using \<open>s < S - i\<close> by (auto simp add: in_set_zip intro!: exI[of _ s])
qed

lemma block_band_at:
  assumes "block_band fmin S i m = Inr m'" "i \<le> S"
  shows "at4 m' b h t s = (if t < S \<and> t = s + i then fmin else at4 m b h t s)"
proof -
  from index_put4_props[of m "drop i [0..<S]" "slice_to [0..<S] (int S - int i)" fmin m'] assms(1)
  obtain pairs where p: "index_pairs (drop i [0..<S]) (slice_to [0..<S] (int S - int i)) = Inr pairs"
    and a: "\<forall>b h t s. at4 m' b h t s = (if (t, s) \<in> set pairs then fmin else at4 m b h t s)"
    by (auto simp add: block_band_def Let_def)
  from p band_pairs[OF assms(2)] have "pairs = zip [i..<S] [0..<S - i]" by simp
  then show ?thesis using a band_pairs_set[of t s i S] by simp
qed

lemma eagle_step_mask:
  assumes "eagle_step M args rc i st = Inr st'"
  shows "bsz4 (st_attention_mask st') = bsz4 (st_attention_mask st) \<and>
         heads4 (st_attention_mask st') = heads4 (st_attention_mask st) \<and>
         tgt4 (st_attention_mask st') = tgt4 (st_attention_mask st) \<and>
         src4 (st_attention_mask st') = src4 (st_attention_mask st) \<and>
         (\<forall>b h t s. at4 (st_attention_mask st') b h t s = finfo_min M \<or>
                    at4 (st_attention_mask st') b h t s = at4 (st_attention_mask st) b h t s)"
  using assms
proof (rule eagle_step_cases)
  fix proj ehs el cache ll
  assume a: "i < 3 \<Longrightarrow> st_logits st' = shift3 (st_logits st) \<and>
               st_input_ids st' = shift2 (st_input_ids st) \<and>
               st_loss_mask st' = map_option shift2 (st_loss_mask st) \<and>
               block_band (finfo_min M) (rc_seq_length rc) i (st_attention_mask st)
                 = Inr (st_attention_mask st')"
    and b: "\<not> i < 3 \<Longrightarrow> st_logits st' = st_logits st \<and> st_input_ids st' = st_input_ids st \<and>
               st_loss_mask st' = st_loss_mask st \<and> st_attention_mask st' = st_attention_mask st"
  show ?thesis
  proof (cases "i < 3")
    case True
    with a have "block_band (finfo_min M) (rc_seq_length rc) i (st_attention_mask st)
                 = Inr (st_attention_mask st')" by simp
    then show ?thesis by (rule block_band_props)
  next
    case False
    with b show ?thesis by simp
  qed
qed

lemma run_steps_mask:
  assumes "run_steps M args rc steps st = Inr st'"
  shows "bsz4 (st_attention_mask st') = bsz4 (st_attention_mask st) \<and>
         heads4 (st_attention_mask st') = heads4 (st_attention_mask st) \<and>
         tgt4 (st_attention_mask st') = tgt4 (st_attention_mask st) \<and>
         src4 (st_attention_mask st') = src4 (st_attention_mask st) \<and>
         (\<forall>b h t s. at4 (st_attention_mask st') b h t s = finfo_min M \<or>
                    at4 (st_attention_mask st') b h t s = at4 (st_attention_mask st) b h t s)"
  using assms
proof (induction steps arbitrary: st)
  case Nil
  then show ?case by simp
next
  case (Cons i steps)
  from Cons.prems obtain s1 where
    s: "eagle_step M args rc i st = Inr s1" "run_steps M args rc steps s1 = Inr st'"
    by (auto simp add: bindE_eq_Inr)
  from eagle_step_mask[OF s(1)] Cons.IH[OF s(2)]
  show ?case by metis
qed

lemma tree_mask_square_region:
  assumes "prepare_tree_attention_mask fmin (Some m) seq_lens cache_len = Inr (Some ext)"
    and "s < src4 m"
  shows "at4 ext b h t s = at4 m b h t s"
proof (cases "cache_len = 0")
  case True
  with assms(1) show ?thesis by (simp add: prepare_tree_attention_mask_def)
next
  case False
  with assms(1) have q: "0 < seq_lens"
    by (cases "seq_lens = 0") (simp_all add: prepare_tree_attention_mask_def Let_def)
  from False have c: "0 < cache_len" by simp
  from assms(1) prepare_tree_result[OF c q, of fmin m]
  have "ext = fold (diagonal_block (src4 m) seq_lens (tgt4 m) (src4 m + cache_len))
                  [0..<cache_len div seq_lens]
                  (assign_low_cols (full4 (bsz4 m) (heads4 m) (tgt4 m) (src4 m + cache_len) fmin)
                     (src4 m) m)" by simp
  then show ?thesis using assms(2)
    by (simp add: fold_diagonal_block_at assign_low_cols_def full4_def)
qed

text \<open>
  Claim C8. Over any run of steps of one forward call, from any state of the loop, the
  running attention mask keeps its shape and is only ever restricted: an entry that holds
  the blocking sentinel \<open>finfo_min\<close> holds it in every later state, and the only value an
  entry can change to is the sentinel, so no write sets an entry back to 0. The same holds
  for the mask that the draft layers see in a later step: the tree mask built from the
  running mask, for any cache length, has the blocked entries of the square region
  blocked.
\<close>

theorem attention_mask_only_restricted:
  assumes "run_steps M args rc steps st = Inr st'"
  shows "bsz4 (st_attention_mask st') = bsz4 (st_attention_mask st) \<and>
         heads4 (st_attention_mask st') = heads4 (st_attention_mask st) \<and>
         tgt4 (st_attention_mask st') = tgt4 (st_attention_mask st) \<and>
         src4 (st_attention_mask st') = src4 (st_attention_mask st) \<and>
         (\<forall>b h t s. at4 (st_attention_mask st) b h t s = finfo_min M \<longrightarrow>
                    at4 (st_attention_mask st') b h t s = finfo_min M) \<and>
         (\<forall>b h t s. at4 (st_attention_mask st') b h t s = finfo_min M \<or>
                    at4 (st_attention_mask st') b h t s = at4 (st_attention_mask st) b h t s) \<and>
         (\<forall>seq_lens cache_len ext b h t s.
            prepare_tree_attention_mask (finfo_min M) (Some (st_attention_mask st')) seq_lens
              cache_len = Inr (Some ext) \<longrightarrow>
            s < src4 (st_attention_mask st) \<longrightarrow>
            at4 (st_attention_mask st) b h t s = finfo_min M \<longrightarrow>
            at4 ext b h t s = finfo_min M)"
proof -
  note r = run_steps_mask[OF assms]
  have mono: "at4 (st_attention_mask st') b h t s = finfo_min M"
    if "at4 (st_attention_mask st) b h t s = finfo_min M" for b h t s
    using r that by metis
  have tree: "at4 ext b h t s = finfo_min M"
    if "prepare_tree_attention_mask (finfo_min M) (Some (st_attention_mask st')) seq_lens
              cache_len = Inr (Some ext)"
      "s < src4 (st_attention_mask st)" "at4 (st_attention_mask st) b h t s = finfo_min M"
    for seq_lens cache_len ext b h t s
  proof -
    have "s < src4 (st_attention_mask st')" using r that(2) by simp
    from tree_mask_square_region[OF that(1) this] mono[OF that(3)] show ?thesis by simp
  qed
  show ?thesis using r mono tree by blast
qed

section \<open>The returned logits\<close>

lemma shift3_iter_seq:
  "0 < k \<Longrightarrow> seq3 ((shift3 ^^ k) x) = max 1 (seq3 x)"
proof (induction k)
  case 0
  then show ?case by simp
next
  case (Suc k)
  show ?case
  proof (cases "k = 0")
    case True
    then show ?thesis by (simp add: shift3_seq_le)
  next
    case False
    with Suc.IH have "seq3 ((shift3 ^^ k) x) = max 1 (seq3 x)" by simp
    then show ?thesis by (simp add: shift3_seq_le)
  qed
qed

lemma eagle_step_logits:
  assumes "eagle_step M args rc i st = Inr st'"
  shows "st_logits st' = (if i < 3 then shift3 (st_logits st) else st_logits st)"
  using assms by (rule eagle_step_cases) (cases "i < 3", simp_all)

lemma eagle_step_eagle_logits:
  assumes "eagle_step M args rc i st = Inr st'"
  shows "\<exists>proj ehs el cache. draft_step M args rc st = Inr (proj, ehs, el, cache) \<and>
           st_eagle_logits st' = Some el"
  using assms by (rule eagle_step_cases) simp

text \<open>A tensor with a non-zero entry differs from each of its shifts.\<close>

lemma shifted_differs:
  fixes x :: "real tensor3"
  assumes "0 < k" "b < batch3 x" "s < seq3 x" "v < feat3 x" "at3 x b s v \<noteq> 0"
  shows "\<exists>s'. s' < seq3 x \<and> at3 ((shift3 ^^ k) x) b s' v \<noteq> at3 x b s' v"
proof -
  define A where "A = {s'. s' < seq3 x \<and> at3 x b s' v \<noteq> 0}"
  have fin: "finite A" by (simp add: A_def)
  have ne: "A \<noteq> {}" using assms(3,5) by (auto simp add: A_def)
  define top where "top = Max A"
  have "top \<in> A" unfolding top_def using fin ne by (rule Max_in)
  then have t: "top < seq3 x" "at3 x b top v \<noteq> 0" by (simp_all add: A_def)
  have later: "at3 x b s' v = 0" if "top < s'" "s' < seq3 x" for s'
  proof (rule ccontr)
    assume "at3 x b s' v \<noteq> 0"
    then have "s' \<in> A" using that(2) by (simp add: A_def)
    then have "s' \<le> top" unfolding top_def using fin by (simp add: Max_ge)
    with that(1) show False by simp
  qed
  have "at3 ((shift3 ^^ k) x) b top v = 0"
    using assms(1) later[of "top + k"] by (simp add: shift3_iter_at)
  with t show ?thesis by metis
qed

text \<open>
  Claim C10. Whenever \<open>forward\<close> returns, its \<open>logits\<close> are the logits of the base model
  shifted three times: position \<open>s\<close> holds the original position \<open>s + 3\<close>, the last three
  positions hold 0, and the batch, sequence (for a non-empty sequence) and vocabulary sizes
  are those of the base logits. They differ from the base logits at some position of every
  batch row and vocabulary entry where the base logits have a non-zero value. The
  \<open>eagle_logits\<close> are the logits that the draft module returns in the fourth step, the
  one taken from the state after steps 0, 1 and 2.
\<close>

theorem forward_returns_shifted_logits:
  assumes "forward M args = Inr out"
  shows "\<exists>rc s0 outputs s3 s4 proj ehs el cache.
           rollout_start M args = Inr (rc, s0, outputs) \<and>
           run_steps M args rc [0..<3] s0 = Inr s3 \<and>
           eagle_step M args rc 3 s3 = Inr s4 \<and>
           draft_step M args rc s3 = Inr (proj, ehs, el, cache) \<and>
           mo_eagle_logits out = el \<and>
           mo_logits out = shift3 (shift3 (shift3 (out_logits outputs))) \<and>
           batch3 (mo_logits out) = batch3 (out_logits outputs) \<and>
           feat3 (mo_logits out) = feat3 (out_logits outputs) \<and>
           seq3 (mo_logits out) = max 1 (seq3 (out_logits outputs)) \<and>
           (\<forall>b s v. at3 (mo_logits out) b s v =
              (if s + 3 < seq3 (out_logits outputs) then at3 (out_logits outputs) b (s + 3) v
               else 0)) \<and>
           (\<forall>b s v. seq3 (mo_logits out) - 3 \<le> s \<longrightarrow> at3 (mo_logits out) b s v = 0) \<and>
           (\<forall>b s v. b < batch3 (out_logits outputs) \<longrightarrow> s < seq3 (out_logits outputs) \<longrightarrow>
              v < feat3 (out_logits outputs) \<longrightarrow> at3 (out_logits outputs) b s v \<noteq> 0 \<longrightarrow>
              (\<exists>s'. s' < seq3 (out_logits outputs) \<and>
                    at3 (mo_logits out) b s' v \<noteq> at3 (out_logits outputs) b s' v))"
proof -
  from assms obtain rc s0 outputs s4 loss el where
    start: "rollout_start M args = Inr (rc, s0, outputs)"
    and run: "run_steps M args rc [0..<4] s0 = Inr s4"
    and el: "st_eagle_logits s4 = Some el"
    and out: "mo_logits out = st_logits s4" "mo_eagle_logits out = el"
    by (rule forward_cases)
  from run obtain s1 s2 s3 where
    e0: "eagle_step M args rc 0 s0 = Inr s1" and e1: "eagle_step M args rc 1 s1 = Inr s2"
    and e2: "eagle_step M args rc 2 s2 = Inr s3" and e3: "eagle_step M args rc 3 s3 = Inr s4"
    unfolding run_steps_four by blast
  define L where "L = out_logits outputs"
  have l0: "st_logits s0 = L" using rollout_start_state[OF start] by (simp add: L_def)
  have r3: "run_steps M args rc [0..<3] s0 = Inr s3"
    using e0 e1 e2 by (simp add: upt3 bindE_Inr)
  have lg: "st_logits s4 = shift3 (shift3 (shift3 L))"
    using eagle_step_logits[OF e0] eagle_step_logits[OF e1] eagle_step_logits[OF e2]
      eagle_step_logits[OF e3] l0 by simp
  have it: "shift3 (shift3 (shift3 L)) = (shift3 ^^ 3) L"
    by (simp add: numeral_3_eq_3)
  from eagle_step_eagle_logits[OF e3] el obtain proj ehs cache where
    d: "draft_step M args rc s3 = Inr (proj, ehs, el, cache)" by auto
  have m: "mo_logits out = (shift3 ^^ 3) L" using out(1) lg it by simp
  have dims: "batch3 (mo_logits out) = batch3 L" "feat3 (mo_logits out) = feat3 L"
    "seq3 (mo_logits out) = max 1 (seq3 L)"
    unfolding m by (simp_all add: shift3_iter_dims shift3_iter_seq)
  have at: "at3 (mo_logits out) b s v = (if s + 3 < seq3 L then at3 L b (s + 3) v else 0)"
    for b s v
    unfolding m by (simp add: shift3_iter_at)
  have tail: "at3 (mo_logits out) b s v = 0" if "seq3 (mo_logits out) - 3 \<le> s" for b s v
    using that dims(3) by (auto simp add: at max_def split: if_splits)
  have diff: "\<exists>s'. s' < seq3 L \<and> at3 (mo_logits out) b s' v \<noteq> at3 L b s' v"
    if "b < batch3 L" "s < seq3 L" "v < feat3 L" "at3 L b s v \<noteq> 0" for b s v
    unfolding m using shifted_differs[OF _ that, of 3] by simp
  have m': "mo_logits out = shift3 (shift3 (shift3 L))" using m it by simp
  show ?thesis
    using start r3 e3 d out(2) m' dims at tail diff unfolding L_def by blast
qed

section \<open>The engine on concrete input\<close>

text \<open>Evaluation of the engine on the small model.\<close>

lemmas toy_eval =
  forward_def rollout_start_def toy_model_def toy_args_def toy_args_no_mask_def bindE_def
  tuple_item_def toy_hidden_def toy_logits_def view_rows_def arange_row_def ones2_def Let_def
  prepare_decoder_attention_mask_def full4_def broadcast4_def bdim_def bidx_def upt4
  eagle_step_def draft_step_def eagle_module_forward_def prepare_tree_attention_mask_def
  toy_layer_def decoder_layer_forward_def cat_last3_def add_scalar2_def
  eagle_loss_def broadcast3_def unsqueeze_last_def softmax3_def log_softmax3_def
  sum_last3_def mean_last3_def sum_all2_def sum_all3_def shift3_def shift2_def
  block_band_def index_put4_def index_pairs_def slice_to_def decayed_loss_def
  list_item_def loss_weight_def assign_low_cols_def diagonal_block_def set_entry_def

lemma toy_forward_returns: "\<exists>out. forward toy_model toy_args = Inr out"
  by (simp add: toy_eval)

lemma toy_start:
  "\<exists>rc s0. rollout_start toy_model toy_args =
      Inr (rc, s0, \<lparr>out_hidden_states = [toy_hidden], out_logits = toy_logits, out_other = ()\<rparr>) \<and>
     rc_seq_length rc = 4 \<and>
     st_loss_mask s0 = Some \<lparr>rows2 = 1, cols2 = 4, at2 = (\<lambda>_ _. 1)\<rparr> \<and>
     tgt4 (st_attention_mask s0) = 4 \<and> src4 (st_attention_mask s0) = 4 \<and>
     at4 (st_attention_mask s0) 0 0 0 1 = - 1 \<and> at4 (st_attention_mask s0) 0 0 1 0 = 0"
  by (simp add: toy_eval)

lemma toy_no_mask_runs:
  "\<exists>rc s0 outputs st. rollout_start toy_model toy_args_no_mask = Inr (rc, s0, outputs) \<and>
      run_steps toy_model toy_args_no_mask rc [0..<4] s0 = Inr st"
  by (simp add: toy_eval)

text \<open>Claim C1 on the small model, with an all-ones loss mask.\<close>

theorem forward_loss_is_decayed_sum_witness:
  "\<exists>out rc s0 outputs s4 c0 c1 c2 c3.
     forward toy_model toy_args = Inr out \<and>
     rollout_start toy_model toy_args = Inr (rc, s0, outputs) \<and>
     run_steps toy_model toy_args rc [0..<4] s0 = Inr s4 \<and>
     st_loss_list s4 = [c0, c1, c2, c3] \<and>
     mo_loss out = c0 + 8 / 10 * c1 + 64 / 100 * c2 + 512 / 1000 * c3"
proof -
  obtain out where o: "forward toy_model toy_args = Inr out"
    using toy_forward_returns by blast
  have m: "arg_loss_mask toy_args = Some \<lparr>rows2 = 1, cols2 = 4, at2 = (\<lambda>_ _. 1)\<rparr>"
    by (simp add: toy_args_def)
  from forward_loss_is_decayed_sum[OF o m] obtain rc s0 outputs s1 s2 s3 s4 c0 c1 c2 c3 where
    "rollout_start toy_model toy_args = Inr (rc, s0, outputs)"
    "eagle_step toy_model toy_args rc 0 s0 = Inr s1" "eagle_step toy_model toy_args rc 1 s1 = Inr s2"
    "eagle_step toy_model toy_args rc 2 s2 = Inr s3" "eagle_step toy_model toy_args rc 3 s3 = Inr s4"
    "st_loss_list s4 = [c0, c1, c2, c3]"
    "mo_loss out = c0 + 8 / 10 * c1 + 64 / 100 * c2 + 512 / 1000 * c3"
    by blast
  then show ?thesis using o run_steps_four[of toy_model toy_args rc s0 s4] by blast
qed

text \<open>Claim C3 on the small model: the four steps run, and the call raises \<open>IndexError\<close>.\<close>

theorem forward_without_loss_mask_fails_witness:
  "forward toy_model toy_args_no_mask = Inl IndexError \<and>
   (\<exists>rc s0 outputs st.
      rollout_start toy_model toy_args_no_mask = Inr (rc, s0, outputs) \<and>
      run_steps toy_model toy_args_no_mask rc [0..<4] s0 = Inr st \<and>
      st_loss_list st = [])"
proof -
  have n: "arg_loss_mask toy_args_no_mask = None" by (simp add: toy_args_no_mask_def)
  from toy_no_mask_runs obtain rc s0 outputs st where
    r: "rollout_start toy_model toy_args_no_mask = Inr (rc, s0, outputs)"
      "run_steps toy_model toy_args_no_mask rc [0..<4] s0 = Inr st" by blast
  from forward_without_loss_mask_fails[OF n, of toy_model] r
  have "st_loss_list st = [] \<and> forward toy_model toy_args_no_mask = Inl IndexError" by blast
  then show ?thesis using r by blast
qed

text \<open>Claim C6 on the first step of the small model: one loss is recorded, the classification loss.\<close>

theorem step_records_classification_loss_only_witness:
  "\<exists>rc s0 outputs s1 proj ehs el cache rl cl out.
     rollout_start toy_model toy_args = Inr (rc, s0, outputs) \<and>
     eagle_step toy_model toy_args rc 0 s0 = Inr s1 \<and>
     draft_step toy_model toy_args rc s0 = Inr (proj, ehs, el, cache) \<and>
     eagle_loss (rc_target_hidden_states rc) (st_logits s0) ehs el
       \<lparr>rows2 = 1, cols2 = 4, at2 = (\<lambda>_ _. 1)\<rparr> = Inr (rl, cl) \<and>
     st_loss_list s1 = [cl] \<and>
     forward toy_model toy_args = Inr out \<and>
     decayed_loss (st_loss_list s1) = Inl IndexError"
proof -
  obtain out where o: "forward toy_model toy_args = Inr out"
    using toy_forward_returns by blast
  from o obtain rc s0 outputs s4 where
    start: "rollout_start toy_model toy_args = Inr (rc, s0, outputs)"
    and run: "run_steps toy_model toy_args rc [0..<4] s0 = Inr s4"
    by (rule forward_cases)
  from run obtain s1 where e0: "eagle_step toy_model toy_args rc 0 s0 = Inr s1"
    unfolding run_steps_four by blast
  have m0: "st_loss_mask s0 = Some \<lparr>rows2 = 1, cols2 = 4, at2 = (\<lambda>_ _. 1)\<rparr>"
    and l0: "st_loss_list s0 = []"
    using rollout_start_state[OF start] by (simp_all add: toy_args_def)
  from step_records_classification_loss_only[OF e0 m0, of out] obtain proj ehs el cache rl cl where
    s: "draft_step toy_model toy_args rc s0 = Inr (proj, ehs, el, cache)"
      "eagle_loss (rc_target_hidden_states rc) (st_logits s0) ehs el
         \<lparr>rows2 = 1, cols2 = 4, at2 = (\<lambda>_ _. 1)\<rparr> = Inr (rl, cl)"
      "st_loss_list s1 = st_loss_list s0 @ [cl]"
    by blast
  have "decayed_loss (st_loss_list s1) = Inl IndexError"
    using s(3) l0 by (simp add: decayed_loss_short)
  then show ?thesis using start e0 s l0 o by auto
qed

text \<open>Claim C7 on the first three steps of the small model: logits 1, 2, 3, 4, input ids 7, 8, 9, 10 and an all-ones mask become 4, 0, 0, 0, then 10, 0, 0, 0 and 1, 0, 0, 0.\<close>

theorem rollout_shifts_left_zero_pad_witness:
  "\<exists>rc s0 outputs s3 lm'.
     rollout_start toy_model toy_args = Inr (rc, s0, outputs) \<and>
     run_steps toy_model toy_args rc [0..<3] s0 = Inr s3 \<and>
     st_logits s0 = toy_logits \<and> at3 toy_logits 0 0 0 = 1 \<and> at3 toy_logits 0 3 0 = 4 \<and>
     seq3 (st_logits s3) = 4 \<and>
     at3 (st_logits s3) 0 0 0 = 4 \<and> at3 (st_logits s3) 0 1 0 = 0 \<and>
     at3 (st_logits s3) 0 2 0 = 0 \<and> at3 (st_logits s3) 0 3 0 = 0 \<and>
     cols2 (st_input_ids s3) = 4 \<and>
     at2 (st_input_ids s3) 0 0 = 10 \<and> at2 (st_input_ids s3) 0 1 = 0 \<and>
     at2 (st_input_ids s3) 0 2 = 0 \<and> at2 (st_input_ids s3) 0 3 = 0 \<and>
     st_loss_mask s3 = Some lm' \<and> cols2 lm' = 4 \<and>
     at2 lm' 0 0 = 1 \<and> at2 lm' 0 1 = 0 \<and> at2 lm' 0 2 = 0 \<and> at2 lm' 0 3 = 0"
proof -
  obtain out where o: "forward toy_model toy_args = Inr out"
    using toy_forward_returns by blast
  from o obtain rc s0 outputs s4 where
    start: "rollout_start toy_model toy_args = Inr (rc, s0, outputs)"
    and run: "run_steps toy_model toy_args rc [0..<4] s0 = Inr s4"
    by (rule forward_cases)
  from run obtain s1 s2 s3 where
    e: "eagle_step toy_model toy_args rc 0 s0 = Inr s1" "eagle_step toy_model toy_args rc 1 s1 = Inr s2"
      "eagle_step toy_model toy_args rc 2 s2 = Inr s3"
    unfolding run_steps_four by blast
  then have r3: "run_steps toy_model toy_args rc [0..<0 + 3] s0 = Inr s3"
    by (simp add: upt3 bindE_Inr)
  define lm :: "real tensor2" where "lm = \<lparr>rows2 = 1, cols2 = 4, at2 = (\<lambda>_ _. 1)\<rparr>"
  from toy_start start have outs: "out_logits outputs = toy_logits"
    and m0: "st_loss_mask s0 = Some lm" by (auto simp add: lm_def)
  have l0: "st_logits s0 = toy_logits" and i0: "st_input_ids s0 = arg_input_ids toy_args"
    using rollout_start_state[OF start] outs by simp_all
  have ne: "0 < seq3 (st_logits s0)" "0 < cols2 (st_input_ids s0)" "0 < cols2 lm"
    by (simp_all add: l0 i0 toy_logits_def toy_args_def lm_def)
  have k: "0 + 3 \<le> (3::nat)" by simp
  note t = rollout_shifts_left_zero_pad[OF r3 k ne m0]
  have d: "seq3 (st_logits s0) = 4" "cols2 (st_input_ids s0) = 4" "cols2 lm = 4"
    by (simp_all add: l0 i0 toy_logits_def toy_args_def lm_def)
  have v: "at3 (st_logits s0) 0 3 0 = 4" "at2 (st_input_ids s0) 0 3 = 10" "at2 lm 0 3 = 1"
    "at3 toy_logits 0 0 0 = 1" "at3 toy_logits 0 3 0 = 4"
    by (simp_all add: l0 i0 toy_logits_def toy_args_def lm_def)
  from t obtain lm' where
    sq: "seq3 (st_logits s3) = seq3 (st_logits s0)"
    and cq: "cols2 (st_input_ids s3) = cols2 (st_input_ids s0)"
    and q: "st_loss_mask s3 = Some lm'" "cols2 lm' = cols2 lm"
    and am: "\<forall>b s. s < cols2 lm \<longrightarrow>
               at2 lm' b s = (if s + 3 < cols2 lm then at2 lm b (s + 3) else 0)"
    and al: "\<forall>b s v. s < seq3 (st_logits s0) \<longrightarrow>
            at3 (st_logits s3) b s v =
              (if s + 3 < seq3 (st_logits s0) then at3 (st_logits s0) b (s + 3) v else 0)"
    and an: "\<forall>b s. s < cols2 (st_input_ids s0) \<longrightarrow>
            at2 (st_input_ids s3) b s =
              (if s + 3 < cols2 (st_input_ids s0) then at2 (st_input_ids s0) b (s + 3) else 0)"
    by blast
  have "at3 (st_logits s3) 0 0 0 = 4" "at3 (st_logits s3) 0 1 0 = 0"
    "at3 (st_logits s3) 0 2 0 = 0" "at3 (st_logits s3) 0 3 0 = 0"
    using al[rule_format, of 0 0 0] al[rule_format, of 1 0 0] al[rule_format, of 2 0 0]
      al[rule_format, of 3 0 0] d v by simp_all
  moreover have "at2 (st_input_ids s3) 0 0 = 10" "at2 (st_input_ids s3) 0 1 = 0"
    "at2 (st_input_ids s3) 0 2 = 0" "at2 (st_input_ids s3) 0 3 = 0"
    using an[rule_format, of 0 0] an[rule_format, of 1 0] an[rule_format, of 2 0]
      an[rule_format, of 3 0] d v by simp_all
  moreover have "at2 lm' 0 0 = 1" "at2 lm' 0 1 = 0" "at2 lm' 0 2 = 0" "at2 lm' 0 3 = 0"
    using am[rule_format, of 0 0] am[rule_format, of 1 0] am[rule_format, of 2 0]
      am[rule_format, of 3 0] d v by simp_all
  ultimately show ?thesis
    using start r3 l0 v(4,5) sq cq q d by auto
qed

text \<open>Claim C8 on the small model: an entry above the diagonal is blocked before the first step and after the last.\<close>

theorem attention_mask_only_restricted_witness:
  "\<exists>rc s0 outputs s4.
     rollout_start toy_model toy_args = Inr (rc, s0, outputs) \<and>
     run_steps toy_model toy_args rc [0..<4] s0 = Inr s4 \<and>
     at4 (st_attention_mask s0) 0 0 0 1 = finfo_min toy_model \<and>
     at4 (st_attention_mask s4) 0 0 0 1 = finfo_min toy_model \<and>
     tgt4 (st_attention_mask s4) = 4 \<and> src4 (st_attention_mask s4) = 4"
proof -
  obtain out where o: "forward toy_model toy_args = Inr out"
    using toy_forward_returns by blast
  from o obtain rc s0 outputs s4 where
    start: "rollout_start toy_model toy_args = Inr (rc, s0, outputs)"
    and run: "run_steps toy_model toy_args rc [0..<4] s0 = Inr s4"
    by (rule forward_cases)
  from toy_start start have m0: "at4 (st_attention_mask s0) 0 0 0 1 = finfo_min toy_model"
    "tgt4 (st_attention_mask s0) = 4" "src4 (st_attention_mask s0) = 4"
    by (auto simp add: toy_model_def)
  from attention_mask_only_restricted[OF run] m0
  have "at4 (st_attention_mask s4) 0 0 0 1 = finfo_min toy_model"
    "tgt4 (st_attention_mask s4) = 4" "src4 (st_attention_mask s4) = 4"
    by simp_all
  then show ?thesis using start run m0 by blast
qed

text \<open>Claim C10 on the small model: base logits 1, 2, 3, 4 along the sequence are returned as 4, 0, 0, 0.\<close>

theorem forward_returns_shifted_logits_witness:
  "\<exists>out. forward toy_model toy_args = Inr out \<and>
     seq3 (mo_logits out) = 4 \<and>
     at3 (mo_logits out) 0 0 0 = 4 \<and> at3 (mo_logits out) 0 1 0 = 0 \<and>
     at3 (mo_logits out) 0 2 0 = 0 \<and> at3 (mo_logits out) 0 3 0 = 0 \<and>
     at3 (mo_logits out) 0 0 0 \<noteq> at3 toy_logits 0 0 0"
proof -
  obtain out where o: "forward toy_model toy_args = Inr out"
    using toy_forward_returns by blast
  from forward_returns_shifted_logits[OF o] obtain rc s0 outputs where
    start: "rollout_start toy_model toy_args = Inr (rc, s0, outputs)"
    and sq: "seq3 (mo_logits out) = max 1 (seq3 (out_logits outputs))"
    and at: "\<forall>b s v. at3 (mo_logits out) b s v =
              (if s + 3 < seq3 (out_logits outputs) then at3 (out_logits outputs) b (s + 3) v
               else 0)"
    by blast
  from toy_start start have l: "out_logits outputs = toy_logits" by auto
  have d: "seq3 toy_logits = 4" "at3 toy_logits 0 3 0 = 4" "at3 toy_logits 0 0 0 = 1"
    by (simp_all add: toy_logits_def)
  show ?thesis using o sq at l d by simp
qed

text \<open>Claim C9 on the layer of the small model: the inputs hold 5 at the first position, the attention output 1, the result 2.\<close>

theorem decoder_layer_no_residual_witness:
  "\<exists>out. decoder_layer_forward toy_layer toy_hidden toy_hidden None (arange_row 4) 0 False
            (toy_hidden, toy_hidden) = Inr ((out, None), 4) \<and>
         at3 toy_hidden 0 0 0 = 5 \<and> at3 out 0 0 0 = 2 \<and> feat3 out = 1"
proof -
  have "\<exists>out. decoder_layer_forward toy_layer toy_hidden toy_hidden None (arange_row 4) 0 False
            (toy_hidden, toy_hidden) = Inr ((out, None), 4)"
    by (simp add: decoder_layer_forward_def toy_layer_def toy_hidden_def bindE_def cat_last3_def)
  then obtain out where
    f: "decoder_layer_forward toy_layer toy_hidden toy_hidden None (arange_row 4) 0 False
            (toy_hidden, toy_hidden) = Inr ((out, None), 4)" by blast
  from f[unfolded decoder_layer_no_residual] obtain embeds normed_hidden concatenated attn_output
    self_attn_weights normed_attn where
    s: "input_layernorm toy_layer toy_hidden = Inr embeds"
      "hidden_norm toy_layer toy_hidden = Inr normed_hidden"
      "cat_last3 embeds normed_hidden = Inr concatenated"
      "self_attn toy_layer concatenated None (arange_row 4) 0 False (toy_hidden, toy_hidden)
         = Inr (attn_output, self_attn_weights, 4)"
      "post_attention_layernorm toy_layer attn_output = Inr normed_attn"
      "mlp toy_layer normed_attn = Inr out"
    by blast
  from s(1,2,3) have c: "feat3 concatenated = 2"
    by (auto simp add: toy_layer_def toy_hidden_def cat_last3_def split: if_splits)
  from s(4) have a: "at3 attn_output 0 0 0 = 1" "feat3 attn_output = feat3 concatenated div 2"
    by (auto simp add: toy_layer_def)
  from s(5) have "normed_attn = attn_output" by (simp add: toy_layer_def)
  with s(6) a c have "at3 out 0 0 0 = 2" "feat3 out = 1"
    by (auto simp add: toy_layer_def)
  then show ?thesis using f by (simp add: toy_hidden_def)
qed

end
